theory Spec2Isabelle
  imports Complex_Main "HOL-Library.Word" "HOL-Library.Sublist"
begin

chapter \<open>The model\<close>

section \<open>Errors and message formatting\<close>

text \<open>
  The C++ sources signal every failure with an exception. \<open>error(...)\<close> builds a
  \<open>chemfiles::Error\<close> from a format string, \<open>format_error(...)\<close> a
  \<open>chemfiles::FormatError\<close>, and \<open>FileError\<close> is the error of the files (the spec's
  IOError); all carry the formatted message that \<open>what()\<close> returns.
  \<open>string_view::substr\<close> past the end raises \<open>std::out_of_range\<close>, and a failed
  \<open>assert\<close> aborts; \<open>Undefined\<close> stands for behaviour that C++ leaves undefined,
  such as an index past the end of a vector. Every function of the model that can fail returns
  \<open>error + 'a\<close>, with \<open>Inl\<close> the exception.
\<close>

datatype error =
    Error string
  | FormatError string
  | FileError string
  | OutOfRange
  | AssertionFailed
  | Undefined

fun what :: "error \<Rightarrow> string" where
  "what (Error m) = m"
| "what (FormatError m) = m"
| "what (FileError m) = m"
| "what OutOfRange = ''out_of_range''"
| "what AssertionFailed = ''assertion failed''"
| "what Undefined = ''undefined behaviour''"

text \<open>\<open>catch (const chemfiles::Error&)\<close> catches \<open>Error\<close> and its subclasses only.\<close>

fun is_chemfiles_error :: "error \<Rightarrow> bool" where
  "is_chemfiles_error (Error m) = True"
| "is_chemfiles_error (FormatError m) = True"
| "is_chemfiles_error (FileError m) = True"
| "is_chemfiles_error OutOfRange = False"
| "is_chemfiles_error AssertionFailed = False"
| "is_chemfiles_error Undefined = False"

text \<open>The \<open>{}\<close> placeholder of the format strings, for unsigned and signed integers.\<close>

definition digit_char :: "nat \<Rightarrow> char" where
  "digit_char d = ''0123456789'' ! d"

function fmt_nat :: "nat \<Rightarrow> string" where
  "fmt_nat n = (if n < 10 then [digit_char n]
                else fmt_nat (n div 10) @ [digit_char (n mod 10)])"
  by pat_completeness auto
termination
  by (relation "measure id") auto

declare fmt_nat.simps [simp del]

definition fmt_int :: "int \<Rightarrow> string" where
  "fmt_int i = (if i < 0 then CHR ''-'' # fmt_nat (nat (- i)) else fmt_nat (nat i))"

text \<open>A placeholder written between single quotes: \<open>'{}'\<close>.\<close>

definition quoted :: "string \<Rightarrow> string" where
  "quoted s = CHR 0x27 # s @ [CHR 0x27]"

section \<open>The token parser (parse.hpp)\<close>

subsection \<open>Integers\<close>

text \<open>
  \<open>check_parse_errors(input, end, type)\<close>: \<open>end\<close> is modelled by its offset from
  \<open>input.data()\<close>, and the global \<open>errno == ERANGE\<close> by a flag.
\<close>

definition check_parse_errors :: "string \<Rightarrow> nat \<Rightarrow> bool \<Rightarrow> string \<Rightarrow> error option" where
  "check_parse_errors inp end_pos erange type_name =
     (if inp = [] \<or> end_pos \<noteq> length inp
      then Some (Error (''can not convert '' @ quoted inp @ '' to a '' @ type_name))
      else if erange
      then Some (Error (inp @ '' is out of range for '' @ type_name))
      else None)"

text \<open>
  \<open>convert_integer<Small, Large>(value)\<close>. The template is instantiated by
  \<open>parse_integer\<close> with \<open>Large = int64_t\<close> for a signed \<open>Small\<close> and with
  \<open>Large = uint64_t\<close> for an unsigned one, so the comparison
  \<open>value > static_cast<Large>(numeric_limits<Small>::max())\<close> is a signed comparison in
  the first case and an unsigned one in the second. \<open>sizeof(Small) < sizeof(Large)\<close> is
  \<open>LENGTH('a) < 64\<close>. The final \<open>static_cast<Small>(value)\<close> keeps the low bits of the
  value (two's complement conversion).
\<close>

definition numeric_limits_max_signed :: "'a::len word" where
  "numeric_limits_max_signed = 2 ^ (LENGTH('a) - 1) - 1"

definition numeric_limits_max_unsigned :: "'a::len word" where
  "numeric_limits_max_unsigned = - 1"

definition convert_integer_signed :: "64 word \<Rightarrow> error + 'a::len word" where
  "convert_integer_signed v =
     (if LENGTH('a) < 64 \<and> (scast (numeric_limits_max_signed :: 'a word) :: 64 word) <s v
      then Inl (Error (fmt_int (sint v) @ '' is out of range for this type''))
      else Inr (scast v))"

definition convert_integer_unsigned :: "64 word \<Rightarrow> error + 'a::len word" where
  "convert_integer_unsigned v =
     (if LENGTH('a) < 64 \<and> (ucast (numeric_limits_max_unsigned :: 'a word) :: 64 word) < v
      then Inl (Error (fmt_nat (unat v) @ '' is out of range for this type''))
      else Inr (ucast v))"

text \<open>
  Modelled from the spec: the bodies of \<open>parse<int64_t>\<close> and \<open>parse<uint64_t>\<close> are
  not in parse.hpp, which only declares them with their documentation: plain decimal
  numbers with ASCII digits, following \<open>(+|-)?\d+\<close> (signed) and \<open>+?\d+\<close> (unsigned);
  an error if the input is empty, if the number is invalid, if it would overflow the
  64-bit type, or if there is additional data after the value. The errors are raised
  through \<open>check_parse_errors\<close> above.
\<close>

definition is_digit :: "char \<Rightarrow> bool" where
  "is_digit c = (48 \<le> (of_char c :: nat) \<and> (of_char c :: nat) \<le> 57)"

fun digits_value :: "nat \<Rightarrow> string \<Rightarrow> nat" where
  "digits_value acc [] = acc"
| "digits_value acc (c # cs) = digits_value (10 * acc + (of_char c - 48)) cs"

definition parse_int64 :: "string \<Rightarrow> error + 64 word" where
  "parse_int64 inp =
     (let negative = (take 1 inp = ''-'');
          body = (if take 1 inp = ''-'' \<or> take 1 inp = ''+'' then drop 1 inp else inp);
          ds = takeWhile is_digit body;
          end_pos = (if ds = [] then 0 else length inp - length body + length ds);
          v = (if negative then - int (digits_value 0 ds) else int (digits_value 0 ds))
      in case check_parse_errors inp end_pos (v < - (2 ^ 63) \<or> 2 ^ 63 \<le> v) ''integer'' of
           Some e \<Rightarrow> Inl e
         | None \<Rightarrow> Inr (word_of_int v))"

definition parse_uint64 :: "string \<Rightarrow> error + 64 word" where
  "parse_uint64 inp =
     (let body = (if take 1 inp = ''+'' then drop 1 inp else inp);
          ds = takeWhile is_digit body;
          end_pos = (if ds = [] then 0 else length inp - length body + length ds);
          v = digits_value 0 ds
      in case check_parse_errors inp end_pos (2 ^ 64 \<le> v) ''unsigned integer'' of
           Some e \<Rightarrow> Inl e
         | None \<Rightarrow> Inr (word_of_nat v))"

text \<open>
  \<open>parse_integer<T>\<close>, and with it \<open>parse<T>\<close> for every integer type but \<open>char\<close>:
  the signed overload parses an \<open>int64_t\<close>, the unsigned one a \<open>uint64_t\<close>, and both
  hand the value to \<open>convert_integer<T>\<close>.
\<close>

definition parse_integer_signed :: "string \<Rightarrow> error + 'a::len word" where
  "parse_integer_signed inp =
     (case parse_int64 inp of Inl e \<Rightarrow> Inl e | Inr v \<Rightarrow> convert_integer_signed v)"

definition parse_integer_unsigned :: "string \<Rightarrow> error + 'a::len word" where
  "parse_integer_unsigned inp =
     (case parse_uint64 inp of Inl e \<Rightarrow> Inl e | Inr v \<Rightarrow> convert_integer_unsigned v)"

text \<open>\<open>parse<std::string>\<close> returns its input, and refuses the empty one.\<close>

definition parse_string :: "string \<Rightarrow> error + string" where
  "parse_string inp =
     (if inp = [] then Inl (Error ''tried to read a string, got an empty value'')
      else Inr inp)"

subsection \<open>Whitespace-separated values\<close>

text \<open>
  Modelled from the spec: \<open>is_whitespace\<close> is declared in chemfiles/utils.hpp, which is
  not among the sources; the spec says that fields are separated by runs of whitespace.
  The functions below take the test as the parameter \<open>ws\<close>, so that what is proved of
  them holds for any reading of it; this ASCII version is used where a line is evaluated.
\<close>

definition is_whitespace :: "char \<Rightarrow> bool" where
  "is_whitespace c = (of_char c \<in> {32, 9, 10, 11, 12, 13 :: nat})"

text \<open>
  \<open>detail::tokens_iterator\<close>. \<open>input\<close> is the member \<open>input_\<close>, the part of the line
  not read yet; \<open>data\<close> is the address \<open>input_.data()\<close> and \<open>initial_start\<close> the member
  \<open>initial_start_\<close>, both as offsets into the line; \<open>count\<close> is the member \<open>count_\<close>
  (a \<open>size_t\<close>, which no line is long enough to overflow).
\<close>

record tokens_iterator =
  input :: string
  data :: nat
  initial_start :: nat
  count :: nat

definition make_tokens_iterator :: "string \<Rightarrow> tokens_iterator" where
  "make_tokens_iterator inp = \<lparr>input = inp, data = 0, initial_start = 0, count = 0\<rparr>"

definition read_count :: "tokens_iterator \<Rightarrow> nat" where
  "read_count it = data it - initial_start it"

definition remove_prefix :: "nat \<Rightarrow> tokens_iterator \<Rightarrow> tokens_iterator" where
  "remove_prefix n it = it\<lparr>input := drop n (input it), data := data it + n\<rparr>"

text \<open>
  \<open>tokens_iterator::next()\<close>: skip the whitespace, measure the run of other characters,
  fail if it is empty, else cut it off and count it.
\<close>

definition tokens_iterator_next ::
  "(char \<Rightarrow> bool) \<Rightarrow> tokens_iterator \<Rightarrow> error + (string \<times> tokens_iterator)" where
  "tokens_iterator_next ws it =
     (let skipped = length (takeWhile ws (input it));
          it1 = remove_prefix skipped it;
          size = length (takeWhile (\<lambda>c. \<not> ws c) (input it1))
      in if size = 0
         then Inl (Error (''tried to read '' @ fmt_nat (count it1 + 1) @
                          '' values, but there are only '' @ fmt_nat (count it1)))
         else Inr (take size (input it1), (remove_prefix size it1)\<lparr>count := count it1 + 1\<rparr>))"

text \<open>
  \<open>scan_impl\<close>, the variadic template: one overload for the last slot, one for a first
  slot followed by others. A slot of type \<open>T\<close> is modelled by the parser \<open>parse<T>\<close>
  it selects, the values assigned to the slots by the list returned. (The C++ assigns
  each slot as soon as its field is parsed; after an exception the caller has no use
  for them.)
\<close>

fun scan_impl ::
  "(char \<Rightarrow> bool) \<Rightarrow> tokens_iterator \<Rightarrow> (string \<Rightarrow> error + 'v) \<Rightarrow> (string \<Rightarrow> error + 'v) list
     \<Rightarrow> error + ('v list \<times> tokens_iterator)" where
  "scan_impl ws it p [] =
     (case tokens_iterator_next ws it of
        Inl e \<Rightarrow> Inl e
      | Inr (tok, it') \<Rightarrow>
          (case p tok of Inl e \<Rightarrow> Inl e | Inr v \<Rightarrow> Inr ([v], it')))"
| "scan_impl ws it p (q # qs) =
     (case tokens_iterator_next ws it of
        Inl e \<Rightarrow> Inl e
      | Inr (tok, it') \<Rightarrow>
          (case p tok of
             Inl e \<Rightarrow> Inl e
           | Inr v \<Rightarrow>
               (case scan_impl ws it' q qs of
                  Inl e \<Rightarrow> Inl e
                | Inr (vs, it'') \<Rightarrow> Inr (v # vs, it''))))"

text \<open>
  \<open>scan(input, args...)\<close>: a \<open>chemfiles::Error\<close> raised while scanning is caught and
  raised again with the line in front; the result is the number of characters read.
\<close>

definition scan ::
  "(char \<Rightarrow> bool) \<Rightarrow> string \<Rightarrow> (string \<Rightarrow> error + 'v) \<Rightarrow> (string \<Rightarrow> error + 'v) list
     \<Rightarrow> error + ('v list \<times> nat)" where
  "scan ws inp p ps =
     (case scan_impl ws (make_tokens_iterator inp) p ps of
        Inl e \<Rightarrow>
          (if is_chemfiles_error e
           then Inl (Error (''error while reading '' @ quoted inp @ '': '' @ what e))
           else Inl e)
      | Inr (vs, it) \<Rightarrow> Inr (vs, read_count it))"

text \<open>
  The whitespace-separated fields of a line, as the spec speaks of them: the maximal
  runs of characters that are not whitespace, in order.
\<close>

function line_fields :: "(char \<Rightarrow> bool) \<Rightarrow> string \<Rightarrow> string list" where
  "line_fields ws s =
     (if dropWhile ws s = [] then []
      else takeWhile (\<lambda>c. \<not> ws c) (dropWhile ws s)
           # line_fields ws (dropWhile (\<lambda>c. \<not> ws c) (dropWhile ws s)))"
  by pat_completeness auto
termination
proof (relation "measure (\<lambda>(ws, s). length s)")
  show "wf (measure (\<lambda>(ws, s). length s))"
    by simp
next
  fix ws :: "char \<Rightarrow> bool" and s :: string
  assume ne: "dropWhile ws s \<noteq> []"
  then obtain c cs where d: "dropWhile ws s = c # cs"
    by (cases "dropWhile ws s") auto
  then have "\<not> ws c"
    using hd_dropWhile [OF ne] by simp
  then have "length (dropWhile (\<lambda>c. \<not> ws c) (dropWhile ws s)) \<le> length cs"
    using d by (simp add: length_dropWhile_le)
  also have "length cs < length (dropWhile ws s)"
    using d by simp
  also have "\<dots> \<le> length s"
    by (rule length_dropWhile_le)
  finally show "((ws, dropWhile (\<lambda>c. \<not> ws c) (dropWhile ws s)), (ws, s))
      \<in> measure (\<lambda>(ws, s). length s)"
    by simp
qed

declare line_fields.simps [simp del]

text \<open>The message of \<open>tokens_iterator::next()\<close> when \<open>k\<close> values have been read.\<close>

definition too_few_message :: "nat \<Rightarrow> string" where
  "too_few_message k =
     ''tried to read '' @ fmt_nat (k + 1) @ '' values, but there are only '' @ fmt_nat k"

section \<open>The identifier codec (InChI.cpp)\<close>

subsection \<open>The text file\<close>

text \<open>
  Modelled from the spec: \<open>TextFile\<close> (chemfiles/File.hpp) is not among the sources.
  The spec gives \<open>readline()\<close>, which returns the next line without its terminator, and
  \<open>tellpos()\<close>, the position in the stream. A file being read is modelled by the lines
  that \<open>readline()\<close> is still to return before \<open>eof()\<close> turns true, each with the
  position that \<open>tellpos()\<close> gives before it is read, and by the position of the end.
  At the end of the file \<open>readline()\<close> returns the empty line.
\<close>

record TextFile =
  rest :: "(nat \<times> string) list"
  end_position :: nat

definition eof :: "TextFile \<Rightarrow> bool" where
  "eof f = (rest f = [])"

definition tellpos :: "TextFile \<Rightarrow> nat" where
  "tellpos f = (case rest f of [] \<Rightarrow> end_position f | (pos, line) # others \<Rightarrow> pos)"

definition readline :: "TextFile \<Rightarrow> string \<times> TextFile" where
  "readline f = (case rest f of [] \<Rightarrow> ([], f) | (pos, line) # others \<Rightarrow> (line, f\<lparr>rest := others\<rparr>))"

text \<open>
  \<open>string_view::find(needle)\<close>: the offset of the first occurrence of the needle, and
  \<open>npos\<close> (here \<open>None\<close>) if there is none.
\<close>

fun string_find :: "string \<Rightarrow> string \<Rightarrow> nat option" where
  "string_find [] needle = (if needle = [] then Some 0 else None)"
| "string_find (c # cs) needle =
     (if prefix needle (c # cs) then Some 0 else map_option Suc (string_find cs needle))"

text \<open>
  \<open>InChIFormat::forward()\<close>: the loop reads lines until one holds \<open>InChI=\<close> or the file
  is at its end.
\<close>

function forward :: "TextFile \<Rightarrow> nat option \<times> TextFile" where
  "forward f =
     (if \<not> eof f
      then if string_find (fst (readline f)) ''InChI='' \<noteq> None
           then (Some (tellpos f), snd (readline f))
           else forward (snd (readline f))
      else (None, f))"
  by pat_completeness auto
termination
  by (relation "measure (\<lambda>f. length (rest f))")
     (auto simp: eof_def readline_def split: list.splits)

declare forward.simps [simp del]

subsection \<open>The molecular graph\<close>

text \<open>
  Modelled from the spec: the classes \<open>Property\<close>, \<open>Atom\<close>, \<open>Bond\<close> and \<open>Frame\<close> and the
  periodic table are not among the sources. The spec's data model gives an atom an
  element, a mass that defaults to the natural isotopic mass unless overridden, a charge
  that defaults to 0 and an open bag of named properties (strings, numbers, booleans);
  a bond is an unordered pair of atom indices with a bond order; a frame is a sequence of
  atoms, positions of the same length, and the bonds. The periodic table is the
  parameter \<open>pt\<close>: the atomic number and the natural mass of an element, if it is one.
  A \<open>double\<close> is modelled by a real number: the codec copies coordinates, converts
  the toolkit's integers, and compares, without arithmetic of its own.
\<close>

type_synonym Vector3D = "real \<times> real \<times> real"

datatype Property =
    PROPERTY_BOOL bool
  | PROPERTY_DOUBLE real
  | PROPERTY_STRING string
  | PROPERTY_VECTOR3D Vector3D

record Atom =
  element :: string
  mass :: real
  charge :: real
  properties :: "string \<rightharpoonup> Property"

type_synonym periodic_table = "string \<Rightarrow> (nat \<times> real) option"

definition new_Atom :: "periodic_table \<Rightarrow> string \<Rightarrow> Atom" where
  "new_Atom pt name =
     \<lparr>element = name, mass = (case pt name of Some (z, m) \<Rightarrow> m | None \<Rightarrow> 0), charge = 0,
      properties = Map.empty\<rparr>"

definition atomic_number :: "periodic_table \<Rightarrow> Atom \<Rightarrow> nat option" where
  "atomic_number pt a = map_option fst (pt (element a))"

definition set_mass :: "real \<Rightarrow> Atom \<Rightarrow> Atom" where
  "set_mass m a = a\<lparr>mass := m\<rparr>"

definition set_charge :: "real \<Rightarrow> Atom \<Rightarrow> Atom" where
  "set_charge c a = a\<lparr>charge := c\<rparr>"

definition set_property :: "string \<Rightarrow> Property \<Rightarrow> Atom \<Rightarrow> Atom" where
  "set_property name v a = a\<lparr>properties := (properties a)(name \<mapsto> v)\<rparr>"

text \<open>\<open>atom.get<Property::STRING>(name)\<close>: the property, if it is there and is a string.\<close>

definition get_string_property :: "string \<Rightarrow> Atom \<Rightarrow> string option" where
  "get_string_property name a =
     (case properties a name of Some (PROPERTY_STRING s) \<Rightarrow> Some s | _ \<Rightarrow> None)"

datatype BondOrder =
    UNKNOWN | SINGLE | DOUBLE | TRIPLE | AROMATIC | AMIDE | DATIVE_L | DATIVE_R
  | UP | DOWN | WEDGE_UP | WEDGE_DOWN | WEDGE_EITHER | EVEN_RECTANGLE | ODD_RECTANGLE

type_synonym Bond = "nat \<times> nat"

definition make_Bond :: "nat \<Rightarrow> nat \<Rightarrow> Bond" where
  "make_Bond i j = (min i j, max i j)"

record Frame =
  atoms :: "Atom list"
  positions :: "Vector3D list"
  bonds :: "Bond list"
  bond_orders :: "BondOrder list"

definition frame_size :: "Frame \<Rightarrow> nat" where
  "frame_size frame = length (atoms frame)"

definition add_atom :: "Atom \<Rightarrow> Vector3D \<Rightarrow> Frame \<Rightarrow> Frame" where
  "add_atom a pos frame =
     frame\<lparr>atoms := atoms frame @ [a], positions := positions frame @ [pos]\<rparr>"

text \<open>
  A bond needs both its atoms in the frame, and a pair that is bonded already cannot be
  added again before it is removed.
\<close>

definition add_bond :: "nat \<Rightarrow> nat \<Rightarrow> BondOrder \<Rightarrow> Frame \<Rightarrow> error + Frame" where
  "add_bond i j order frame =
     (if frame_size frame \<le> i \<or> frame_size frame \<le> j
      then Inl (Error ''out of bounds atomic index in add_bond'')
      else if make_Bond i j \<in> set (bonds frame)
      then Inl (Error ''this bond is already in the frame'')
      else Inr (frame\<lparr>bonds := bonds frame @ [make_Bond i j],
                        bond_orders := bond_orders frame @ [order]\<rparr>))"

definition remove_bond :: "nat \<Rightarrow> nat \<Rightarrow> Frame \<Rightarrow> Frame" where
  "remove_bond i j frame =
     (let kept = filter (\<lambda>(b, order). b \<noteq> make_Bond i j) (zip (bonds frame) (bond_orders frame))
      in frame\<lparr>bonds := map fst kept, bond_orders := map snd kept\<rparr>)"

text \<open>
  \<open>frame[index].set(name, value)\<close>. \<open>Frame::operator[]\<close> does not check its index; an
  index past the last atom is undefined behaviour, which the model makes an error.
\<close>

definition set_atom_property :: "nat \<Rightarrow> string \<Rightarrow> Property \<Rightarrow> Frame \<Rightarrow> error + Frame" where
  "set_atom_property index name v frame =
     (if index < frame_size frame
      then Inr (frame\<lparr>atoms := (atoms frame)[index := set_property name v (atoms frame ! index)]\<rparr>)
      else Inl Undefined)"

subsection \<open>The toolkit\<close>

text \<open>
  The InChI library is outside the repository; InChI.cpp reaches it through the
  functions \<open>IXA_...\<close> of inchi_api.h. Its enumerations are given here with the values
  InChI.cpp names, identifiers are opaque numbers, and \<open>IXA_ATOMID_IMPLICIT_H\<close> is the
  identifier that stands for an implicit hydrogen.
\<close>

datatype IXA_STATUS = IXA_STATUS_SUCCESS | IXA_STATUS_WARNING | IXA_STATUS_ERROR

datatype IXA_ATOM_RADICAL =
  IXA_ATOM_RADICAL_NONE | IXA_ATOM_RADICAL_SINGLET | IXA_ATOM_RADICAL_DOUBLET | IXA_ATOM_RADICAL_TRIPLET

datatype IXA_BOND_TYPE =
  IXA_BOND_TYPE_SINGLE | IXA_BOND_TYPE_DOUBLE | IXA_BOND_TYPE_TRIPLE | IXA_BOND_TYPE_AROMATIC

datatype IXA_STEREO_TOPOLOGY =
    IXA_STEREO_TOPOLOGY_INVALID | IXA_STEREO_TOPOLOGY_TETRAHEDRON
  | IXA_STEREO_TOPOLOGY_RECTANGLE | IXA_STEREO_TOPOLOGY_ANTIRECTANGLE

datatype IXA_STEREO_PARITY =
  IXA_STEREO_PARITY_NONE | IXA_STEREO_PARITY_ODD | IXA_STEREO_PARITY_EVEN | IXA_STEREO_PARITY_UNKNOWN

datatype IXA_ATOMID = IXA_ATOMID nat | IXA_ATOMID_IMPLICIT_H

datatype IXA_BONDID = IXA_BONDID nat

datatype IXA_STEREOID = IXA_STEREOID nat

definition IXA_ATOM_NATURAL_MASS :: int where
  "IXA_ATOM_NATURAL_MASS = 0"

text \<open>The value of the enumeration, as \<open>atom.set("radial", radical)\<close> stores it.\<close>

fun radical_value :: "IXA_ATOM_RADICAL \<Rightarrow> int" where
  "radical_value IXA_ATOM_RADICAL_NONE = 0"
| "radical_value IXA_ATOM_RADICAL_SINGLET = 1"
| "radical_value IXA_ATOM_RADICAL_DOUBLET = 2"
| "radical_value IXA_ATOM_RADICAL_TRIPLET = 3"

text \<open>
  The calls that build a molecule, in the order InChI.cpp makes them: the write path is
  observed through this log. The status and molecule handles that every call takes are
  left out.
\<close>

datatype ixa_call =
    CreateAtom
  | SetAtomAtomicNumber IXA_ATOMID int
  | SetAtomX IXA_ATOMID real
  | SetAtomY IXA_ATOMID real
  | SetAtomZ IXA_ATOMID real
  | SetAtomMass IXA_ATOMID int
  | SetAtomCharge IXA_ATOMID int
  | SetAtomHydrogens IXA_ATOMID int int
  | CreateBond IXA_ATOMID IXA_ATOMID
  | SetBondType IXA_BONDID IXA_BOND_TYPE
  | CreateStereoTetrahedron IXA_ATOMID IXA_ATOMID IXA_ATOMID IXA_ATOMID IXA_ATOMID
  | SetStereoParity IXA_STEREOID IXA_STEREO_PARITY

text \<open>
  What the toolkit answers. The functions that query a molecule are functions of their
  arguments; the functions that create a part of it answer with the identifier of the
  part, given the calls made before; \<open>IXA_STATUS_entries n\<close> is the list of the
  severities and messages that the \<open>n\<close>-th reading of the status finds. For the read
  path the toolkit is given as a function of the identifier it has read.
\<close>

record toolkit =
  IXA_STATUS_entries :: "nat \<Rightarrow> (IXA_STATUS \<times> string) list"
  IXA_MOL_GetNumAtoms :: int
  IXA_MOL_GetNumBonds :: int
  IXA_MOL_GetNumStereos :: int
  IXA_MOL_GetAtomId :: "int \<Rightarrow> IXA_ATOMID"
  IXA_MOL_GetBondId :: "int \<Rightarrow> IXA_BONDID"
  IXA_MOL_GetStereoId :: "int \<Rightarrow> IXA_STEREOID"
  IXA_MOL_GetAtomIndex :: "IXA_ATOMID \<Rightarrow> int"
  IXA_MOL_GetAtomElement :: "IXA_ATOMID \<Rightarrow> string"
  IXA_MOL_GetAtomAtomicNumber :: "IXA_ATOMID \<Rightarrow> int"
  IXA_MOL_GetAtomMass :: "IXA_ATOMID \<Rightarrow> int"
  IXA_MOL_GetAtomCharge :: "IXA_ATOMID \<Rightarrow> int"
  IXA_MOL_GetAtomRadical :: "IXA_ATOMID \<Rightarrow> IXA_ATOM_RADICAL"
  IXA_MOL_GetAtomHydrogens :: "IXA_ATOMID \<Rightarrow> int \<Rightarrow> int"
  IXA_MOL_GetAtomX :: "IXA_ATOMID \<Rightarrow> real"
  IXA_MOL_GetAtomY :: "IXA_ATOMID \<Rightarrow> real"
  IXA_MOL_GetAtomZ :: "IXA_ATOMID \<Rightarrow> real"
  IXA_MOL_GetBondType :: "IXA_BONDID \<Rightarrow> IXA_BOND_TYPE"
  IXA_MOL_GetBondAtom1 :: "IXA_BONDID \<Rightarrow> IXA_ATOMID"
  IXA_MOL_GetBondAtom2 :: "IXA_BONDID \<Rightarrow> IXA_ATOMID"
  IXA_MOL_GetStereoTopology :: "IXA_STEREOID \<Rightarrow> IXA_STEREO_TOPOLOGY"
  IXA_MOL_GetStereoParity :: "IXA_STEREOID \<Rightarrow> IXA_STEREO_PARITY"
  IXA_MOL_GetStereoCentralAtom :: "IXA_STEREOID \<Rightarrow> IXA_ATOMID"
  IXA_MOL_GetStereoCentralBond :: "IXA_STEREOID \<Rightarrow> IXA_BONDID"
  IXA_MOL_CreateAtom :: "ixa_call list \<Rightarrow> IXA_ATOMID"
  IXA_MOL_CreateBond :: "ixa_call list \<Rightarrow> IXA_BONDID"
  IXA_MOL_CreateStereoTetrahedron :: "ixa_call list \<Rightarrow> IXA_STEREOID"
  IXA_INCHIBUILDER_GetInChIEx :: "ixa_call list \<Rightarrow> string"
  IXA_INCHIBUILDER_GetAuxInfo :: "ixa_call list \<Rightarrow> string"

subsection \<open>The wrapper of the toolkit's molecule\<close>

text \<open>
  The state that the methods of \<open>IXAMolWrapper\<close> change: how often the status has been
  read, the building calls made, and the warnings handed to \<open>warning(context, message)\<close>.
  When a method raises, the state is dropped with it. The destructor's calls are left out.
\<close>

record IXAMolWrapper =
  status_reads :: nat
  calls :: "ixa_call list"
  warnings :: "(string \<times> string) list"

definition and_then :: "error + 'a \<Rightarrow> ('a \<Rightarrow> error + 'b) \<Rightarrow> error + 'b" where
  "and_then m f = (case m of Inl e \<Rightarrow> Inl e | Inr x \<Rightarrow> f x)"

text \<open>
  \<open>check_for_errors()\<close>: the messages of severity error are joined, each followed by a
  newline; the warnings are passed on; if there was an error, a \<open>FormatError\<close> is
  raised, else the status is cleared.
\<close>

definition check_for_errors :: "toolkit \<Rightarrow> IXAMolWrapper \<Rightarrow> error + IXAMolWrapper" where
  "check_for_errors tk w =
     (let entries = IXA_STATUS_entries tk (status_reads w);
          errors = concat (map (\<lambda>(severity, message).
                      if severity = IXA_STATUS_ERROR then message @ [CHR 0x0A] else []) entries);
          warned = map (\<lambda>(severity, message). (''InChI IXA: '', quoted message))
                      (filter (\<lambda>(severity, message). severity = IXA_STATUS_WARNING) entries)
      in if errors \<noteq> []
         then Inl (FormatError (''problem in InChI IXA: '' @ quoted errors))
         else Inr (w\<lparr>status_reads := status_reads w + 1, warnings := warnings w @ warned\<rparr>))"

definition new_IXAMolWrapper :: "toolkit \<Rightarrow> error + IXAMolWrapper" where
  "new_IXAMolWrapper tk = check_for_errors tk \<lparr>status_reads = 0, calls = [], warnings = []\<rparr>"

text \<open>A query followed by \<open>check_for_errors()\<close>, as most methods of the wrapper are.\<close>

definition checked :: "toolkit \<Rightarrow> 'a \<Rightarrow> IXAMolWrapper \<Rightarrow> error + ('a \<times> IXAMolWrapper)" where
  "checked tk answer w = and_then (check_for_errors tk w) (\<lambda>w'. Inr (answer, w'))"

definition read_string :: "toolkit \<Rightarrow> IXAMolWrapper \<Rightarrow> error + IXAMolWrapper" where
  "read_string tk w = check_for_errors tk w"

definition atom_count :: "toolkit \<Rightarrow> IXAMolWrapper \<Rightarrow> error + (int \<times> IXAMolWrapper)" where
  "atom_count tk w = checked tk (IXA_MOL_GetNumAtoms tk) w"

definition bond_count :: "toolkit \<Rightarrow> IXAMolWrapper \<Rightarrow> error + (int \<times> IXAMolWrapper)" where
  "bond_count tk w = checked tk (IXA_MOL_GetNumBonds tk) w"

definition stereo_count :: "toolkit \<Rightarrow> IXAMolWrapper \<Rightarrow> error + (int \<times> IXAMolWrapper)" where
  "stereo_count tk w = checked tk (IXA_MOL_GetNumStereos tk) w"

definition atom :: "toolkit \<Rightarrow> int \<Rightarrow> IXAMolWrapper \<Rightarrow> error + (IXA_ATOMID \<times> IXAMolWrapper)" where
  "atom tk atom_index w = checked tk (IXA_MOL_GetAtomId tk atom_index) w"

definition bond_id :: "toolkit \<Rightarrow> int \<Rightarrow> IXAMolWrapper \<Rightarrow> error + (IXA_BONDID \<times> IXAMolWrapper)" where
  "bond_id tk bond_index w = checked tk (IXA_MOL_GetBondId tk bond_index) w"

definition stereo :: "toolkit \<Rightarrow> int \<Rightarrow> IXAMolWrapper \<Rightarrow> error + (IXA_STEREOID \<times> IXAMolWrapper)" where
  "stereo tk stereo_index w = checked tk (IXA_MOL_GetStereoId tk stereo_index) w"

text \<open>\<open>static_cast<size_t>\<close> of the toolkit's \<open>int\<close>: a negative index wraps around.\<close>

definition to_size_t :: "int \<Rightarrow> nat" where
  "to_size_t i = nat (i mod 2 ^ 64)"

definition atom_index :: "toolkit \<Rightarrow> IXA_ATOMID \<Rightarrow> IXAMolWrapper \<Rightarrow> error + (nat \<times> IXAMolWrapper)" where
  "atom_index tk a w = checked tk (to_size_t (IXA_MOL_GetAtomIndex tk a)) w"

definition atom_position ::
  "toolkit \<Rightarrow> IXA_ATOMID \<Rightarrow> IXAMolWrapper \<Rightarrow> error + (Vector3D \<times> IXAMolWrapper)" where
  "atom_position tk a w =
     checked tk (IXA_MOL_GetAtomX tk a, IXA_MOL_GetAtomY tk a, IXA_MOL_GetAtomZ tk a) w"

definition bond_type ::
  "toolkit \<Rightarrow> IXA_BONDID \<Rightarrow> IXAMolWrapper \<Rightarrow> error + (IXA_BOND_TYPE \<times> IXAMolWrapper)" where
  "bond_type tk b w = checked tk (IXA_MOL_GetBondType tk b) w"

definition bond_of :: "toolkit \<Rightarrow> IXA_BONDID \<Rightarrow> IXAMolWrapper \<Rightarrow> error + (Bond \<times> IXAMolWrapper)" where
  "bond_of tk b w =
     checked tk (make_Bond (to_size_t (IXA_MOL_GetAtomIndex tk (IXA_MOL_GetBondAtom1 tk b)))
                           (to_size_t (IXA_MOL_GetAtomIndex tk (IXA_MOL_GetBondAtom2 tk b)))) w"

definition stereo_topology ::
  "toolkit \<Rightarrow> IXA_STEREOID \<Rightarrow> IXAMolWrapper \<Rightarrow> error + (IXA_STEREO_TOPOLOGY \<times> IXAMolWrapper)" where
  "stereo_topology tk st w = checked tk (IXA_MOL_GetStereoTopology tk st) w"

definition stereo_parity ::
  "toolkit \<Rightarrow> IXA_STEREOID \<Rightarrow> IXAMolWrapper \<Rightarrow> error + (IXA_STEREO_PARITY \<times> IXAMolWrapper)" where
  "stereo_parity tk st w = checked tk (IXA_MOL_GetStereoParity tk st) w"

definition stereo_central_atom ::
  "toolkit \<Rightarrow> IXA_STEREOID \<Rightarrow> IXAMolWrapper \<Rightarrow> error + (IXA_ATOMID \<times> IXAMolWrapper)" where
  "stereo_central_atom tk st w = checked tk (IXA_MOL_GetStereoCentralAtom tk st) w"

definition stereo_central_bond ::
  "toolkit \<Rightarrow> IXA_STEREOID \<Rightarrow> IXAMolWrapper \<Rightarrow> error + (IXA_BONDID \<times> IXAMolWrapper)" where
  "stereo_central_bond tk st w = checked tk (IXA_MOL_GetStereoCentralBond tk st) w"

text \<open>
  \<open>get_atom(atom_id)\<close>: an atom of the element, on which the mass, the charge, the
  radical and the three counts of hydrogen isotopes are set one after the other, each
  under its own test. The property of the radical is stored under the name "radial".
\<close>

definition get_atom :: "periodic_table \<Rightarrow> toolkit \<Rightarrow> IXA_ATOMID \<Rightarrow> Atom" where
  "get_atom pt tk atom_id =
     (let a0 = new_Atom pt (IXA_MOL_GetAtomElement tk atom_id);
          m = IXA_MOL_GetAtomMass tk atom_id;
          a1 = (if m \<noteq> IXA_ATOM_NATURAL_MASS then set_mass (of_int m) a0 else a0);
          c = IXA_MOL_GetAtomCharge tk atom_id;
          a2 = (if c \<noteq> 0 then set_charge (of_int c) a1 else a1);
          radical = IXA_MOL_GetAtomRadical tk atom_id;
          a3 = (if radical \<noteq> IXA_ATOM_RADICAL_NONE
                then set_property ''radial'' (PROPERTY_DOUBLE (of_int (radical_value radical))) a2
                else a2);
          mass1 = IXA_MOL_GetAtomHydrogens tk atom_id 1;
          mass2 = IXA_MOL_GetAtomHydrogens tk atom_id 2;
          mass3 = IXA_MOL_GetAtomHydrogens tk atom_id 3;
          a4 = (if mass1 \<noteq> 0
                then set_property ''hydrogen_count'' (PROPERTY_DOUBLE (of_int mass1)) a3 else a3);
          a5 = (if mass2 \<noteq> 0
                then set_property ''deuterium_count'' (PROPERTY_DOUBLE (of_int mass2)) a4 else a4);
          a6 = (if mass3 \<noteq> 0
                then set_property ''tritium_count'' (PROPERTY_DOUBLE (of_int mass3)) a5 else a5)
      in a6)"

subsection \<open>Reading a frame\<close>

lemma and_then_cong [fundef_cong]:
  "m = m' \<Longrightarrow> (\<And>x. m' = Inr x \<Longrightarrow> f x = f' x) \<Longrightarrow> and_then m f = and_then m' f'"
  by (cases m') (simp_all add: and_then_def)

text \<open>The first loop of \<open>read_next\<close>, from the index \<open>i\<close> on: the atoms.\<close>

function read_atoms ::
  "periodic_table \<Rightarrow> toolkit \<Rightarrow> int \<Rightarrow> IXAMolWrapper \<times> Frame \<Rightarrow> error + (IXAMolWrapper \<times> Frame)" where
  "read_atoms pt tk i (w, frame) =
     and_then (atom_count tk w) (\<lambda>(n, w1).
       if i < n
       then and_then (atom tk i w1) (\<lambda>(atom_id, w2).
              and_then (atom_position tk atom_id w2) (\<lambda>(pos, w3).
                read_atoms pt tk (i + 1) (w3, add_atom (get_atom pt tk atom_id) pos frame)))
       else Inr (w1, frame))"
  by pat_completeness auto
termination
  by (relation "measure (\<lambda>(pt, tk, i, mf). nat (IXA_MOL_GetNumAtoms tk - i))")
     (auto simp: atom_count_def checked_def and_then_def split: sum.splits)

declare read_atoms.simps [simp del]

text \<open>The second loop: the bonds. An aromatic bond is reported and read as a single bond.\<close>

definition read_bond :: "toolkit \<Rightarrow> int \<Rightarrow> IXAMolWrapper \<times> Frame \<Rightarrow> error + (IXAMolWrapper \<times> Frame)" where
  "read_bond tk i = (\<lambda>(w, frame).
     and_then (bond_id tk i w) (\<lambda>(b, w1).
       and_then (bond_of tk b w1) (\<lambda>(bond, w2).
         and_then (bond_type tk b w2) (\<lambda>(t, w3).
           let bo = (case t of
                       IXA_BOND_TYPE_SINGLE \<Rightarrow> SINGLE
                     | IXA_BOND_TYPE_DOUBLE \<Rightarrow> DOUBLE
                     | IXA_BOND_TYPE_TRIPLE \<Rightarrow> TRIPLE
                     | IXA_BOND_TYPE_AROMATIC \<Rightarrow> SINGLE);
               w4 = (if t = IXA_BOND_TYPE_AROMATIC
                     then w3\<lparr>warnings := warnings w3 @
                            [(''InChI Reader'', ''unexpected aromatic bond, assuming single bond'')]\<rparr>
                     else w3)
           in and_then (add_bond (fst bond) (snd bond) bo frame) (\<lambda>frame'. Inr (w4, frame'))))))"

function read_bonds ::
  "toolkit \<Rightarrow> int \<Rightarrow> IXAMolWrapper \<times> Frame \<Rightarrow> error + (IXAMolWrapper \<times> Frame)" where
  "read_bonds tk i (w, frame) =
     and_then (bond_count tk w) (\<lambda>(n, w1).
       if i < n
       then and_then (read_bond tk i (w1, frame)) (read_bonds tk (i + 1))
       else Inr (w1, frame))"
  by pat_completeness auto
termination
  by (relation "measure (\<lambda>(tk, i, mf). nat (IXA_MOL_GetNumBonds tk - i))")
     (auto simp: bond_count_def checked_def and_then_def split: sum.splits)

declare read_bonds.simps [simp del]

text \<open>
  The third loop: the stereocentres. \<open>chirality_case\<close> is the block under
  \<open>case IXA_STEREO_TOPOLOGY_TETRAHEDRON\<close>, with the value that \<open>center_type\<close> has when
  control reaches it; \<open>rectangle_case\<close> is the block under
  \<open>case IXA_STEREO_TOPOLOGY_RECTANGLE\<close>. The case \<open>IXA_STEREO_TOPOLOGY_ANTIRECTANGLE\<close>
  assigns \<open>center_type\<close> and has no \<open>break\<close>.
\<close>

definition chirality_case ::
  "toolkit \<Rightarrow> string \<Rightarrow> IXA_STEREO_PARITY \<Rightarrow> IXA_STEREOID \<Rightarrow> IXAMolWrapper \<times> Frame
     \<Rightarrow> error + (IXAMolWrapper \<times> Frame)" where
  "chirality_case tk center_type parity st = (\<lambda>(w, frame).
     and_then (stereo_central_atom tk st w) (\<lambda>(central_atom, w1).
       and_then (atom_index tk central_atom w1) (\<lambda>(central_idx, w2).
         and_then
           (if parity = IXA_STEREO_PARITY_EVEN
            then set_atom_property central_idx ''chirality''
                   (PROPERTY_STRING (center_type @ ''even'')) frame
            else if parity = IXA_STEREO_PARITY_ODD
            then set_atom_property central_idx ''chirality''
                   (PROPERTY_STRING (center_type @ ''odd'')) frame
            else if parity = IXA_STEREO_PARITY_NONE
            then set_atom_property central_idx ''chirality''
                   (PROPERTY_STRING (center_type @ ''none'')) frame
            else set_atom_property central_idx ''chirality''
                   (PROPERTY_STRING (center_type @ ''unknown'')) frame)
           (\<lambda>frame'. Inr (w2, frame')))))"

definition rectangle_case ::
  "toolkit \<Rightarrow> IXA_STEREO_PARITY \<Rightarrow> IXA_STEREOID \<Rightarrow> IXAMolWrapper \<times> Frame
     \<Rightarrow> error + (IXAMolWrapper \<times> Frame)" where
  "rectangle_case tk parity st = (\<lambda>(w, frame).
     and_then (stereo_central_bond tk st w) (\<lambda>(b, w1).
       and_then (bond_of tk b w1) (\<lambda>(bond, w2).
         if parity = IXA_STEREO_PARITY_EVEN
         then and_then (add_bond (fst bond) (snd bond) EVEN_RECTANGLE
                          (remove_bond (fst bond) (snd bond) frame)) (\<lambda>frame'. Inr (w2, frame'))
         else if parity = IXA_STEREO_PARITY_ODD
         then and_then (add_bond (fst bond) (snd bond) ODD_RECTANGLE
                          (remove_bond (fst bond) (snd bond) frame)) (\<lambda>frame'. Inr (w2, frame'))
         else if parity = IXA_STEREO_PARITY_UNKNOWN
         then and_then (add_bond (fst bond) (snd bond) DOUBLE
                          (remove_bond (fst bond) (snd bond) frame)) (\<lambda>frame'. Inr (w2, frame'))
         else Inr (w2, frame))))"

definition stereo_switch ::
  "toolkit \<Rightarrow> IXA_STEREO_TOPOLOGY \<Rightarrow> IXA_STEREO_PARITY \<Rightarrow> IXA_STEREOID \<Rightarrow> IXAMolWrapper \<times> Frame
     \<Rightarrow> error + (IXAMolWrapper \<times> Frame)" where
  "stereo_switch tk topology parity st mf =
     (let center_type = ''tetrahedron_'' in
      case topology of
        IXA_STEREO_TOPOLOGY_ANTIRECTANGLE \<Rightarrow>
          (let center_type = ''antirectangle_'' in chirality_case tk center_type parity st mf)
      | IXA_STEREO_TOPOLOGY_TETRAHEDRON \<Rightarrow> chirality_case tk center_type parity st mf
      | IXA_STEREO_TOPOLOGY_RECTANGLE \<Rightarrow> rectangle_case tk parity st mf
      | IXA_STEREO_TOPOLOGY_INVALID \<Rightarrow> Inr mf)"

definition read_stereo ::
  "toolkit \<Rightarrow> int \<Rightarrow> IXAMolWrapper \<times> Frame \<Rightarrow> error + (IXAMolWrapper \<times> Frame)" where
  "read_stereo tk i = (\<lambda>(w, frame).
     and_then (stereo tk i w) (\<lambda>(st, w1).
       and_then (stereo_topology tk st w1) (\<lambda>(topology, w2).
         and_then (stereo_parity tk st w2) (\<lambda>(parity, w3).
           stereo_switch tk topology parity st (w3, frame)))))"

function read_stereos ::
  "toolkit \<Rightarrow> int \<Rightarrow> IXAMolWrapper \<times> Frame \<Rightarrow> error + (IXAMolWrapper \<times> Frame)" where
  "read_stereos tk i (w, frame) =
     and_then (stereo_count tk w) (\<lambda>(n, w1).
       if i < n
       then and_then (read_stereo tk i (w1, frame)) (read_stereos tk (i + 1))
       else Inr (w1, frame))"
  by pat_completeness auto
termination
  by (relation "measure (\<lambda>(tk, i, mf). nat (IXA_MOL_GetNumStereos tk - i))")
     (auto simp: stereo_count_def checked_def and_then_def split: sum.splits)

declare read_stereos.simps [simp del]

text \<open>
  \<open>InChIFormat::read_next(frame)\<close>. \<open>ixa\<close> gives the toolkit's answers once it has read
  an identifier. The result is the file behind the line, the frame, and the warnings.
\<close>

definition read_next ::
  "periodic_table \<Rightarrow> (string \<Rightarrow> toolkit) \<Rightarrow> TextFile \<Rightarrow> Frame
     \<Rightarrow> error + (TextFile \<times> Frame \<times> (string \<times> string) list)" where
  "read_next pt ixa file frame =
     (let inchi = fst (readline file);
          tk = ixa inchi
      in and_then (new_IXAMolWrapper tk) (\<lambda>mol.
           and_then (read_string tk mol) (\<lambda>mol.
             and_then (read_atoms pt tk 0 (mol, frame)) (\<lambda>mf.
               and_then (read_bonds tk 0 mf) (\<lambda>mf.
                 and_then (read_stereos tk 0 mf) (\<lambda>(mol, frame').
                   Inr (snd (readline file), frame', warnings mol)))))))"

subsection \<open>Writing a frame\<close>

definition call :: "ixa_call \<Rightarrow> IXAMolWrapper \<Rightarrow> IXAMolWrapper" where
  "call c w = w\<lparr>calls := calls w @ [c]\<rparr>"

text \<open>\<open>static_cast<int>\<close> of a \<open>size_t\<close>: the low 32 bits, read as two's complement.\<close>

definition to_int :: "nat \<Rightarrow> int" where
  "to_int n = sint (word_of_nat n :: 32 word)"

text \<open>
  \<open>double_to_int(value, int_part)\<close>: \<open>Some\<close> the integer when \<open>modf\<close> leaves no
  fractional part, \<open>None\<close> when the function returns false. The conversion of a value
  beyond the range of \<open>int\<close> is undefined.
\<close>

definition double_to_int :: "real \<Rightarrow> error + int option" where
  "double_to_int v =
     (if frac v = 0
      then if - (2 ^ 31) \<le> \<lfloor>v\<rfloor> \<and> \<lfloor>v\<rfloor> < 2 ^ 31 then Inr (Some \<lfloor>v\<rfloor>) else Inl Undefined
      else Inr None)"

definition create_atom ::
  "periodic_table \<Rightarrow> toolkit \<Rightarrow> Atom \<Rightarrow> Vector3D \<Rightarrow> IXAMolWrapper \<Rightarrow> error + IXAMolWrapper" where
  "create_atom pt tk a pos w =
     (let new_atom = IXA_MOL_CreateAtom tk (calls w);
          w1 = call CreateAtom w;
          w2 = (case atomic_number pt a of
                  Some z \<Rightarrow> call (SetAtomAtomicNumber new_atom (to_int z)) w1
                | None \<Rightarrow> w1);
          w3 = call (SetAtomX new_atom (fst pos)) w2;
          w4 = call (SetAtomY new_atom (fst (snd pos))) w3;
          w5 = call (SetAtomZ new_atom (snd (snd pos))) w4
      in and_then (double_to_int (mass a)) (\<lambda>m.
           let w6 = (case m of Some int_part \<Rightarrow> call (SetAtomMass new_atom int_part) w5
                     | None \<Rightarrow> w5)
           in and_then (double_to_int (charge a)) (\<lambda>c.
                let w7 = (case c of Some int_part \<Rightarrow> call (SetAtomCharge new_atom int_part) w6
                          | None \<Rightarrow> w6);
                    w8 = call (SetAtomHydrogens new_atom 0 (- 1)) w7
                in check_for_errors tk w8)))"

text \<open>The switch of \<open>create_bond\<close>: the bond type set for an order, if one is set.\<close>

fun bond_type_of_order :: "BondOrder \<Rightarrow> IXA_BOND_TYPE option" where
  "bond_type_of_order SINGLE = Some IXA_BOND_TYPE_SINGLE"
| "bond_type_of_order AMIDE = Some IXA_BOND_TYPE_SINGLE"
| "bond_type_of_order DATIVE_L = Some IXA_BOND_TYPE_SINGLE"
| "bond_type_of_order DATIVE_R = Some IXA_BOND_TYPE_SINGLE"
| "bond_type_of_order UP = Some IXA_BOND_TYPE_SINGLE"
| "bond_type_of_order DOWN = Some IXA_BOND_TYPE_SINGLE"
| "bond_type_of_order WEDGE_UP = Some IXA_BOND_TYPE_SINGLE"
| "bond_type_of_order WEDGE_DOWN = Some IXA_BOND_TYPE_SINGLE"
| "bond_type_of_order WEDGE_EITHER = Some IXA_BOND_TYPE_SINGLE"
| "bond_type_of_order DOUBLE = Some IXA_BOND_TYPE_DOUBLE"
| "bond_type_of_order EVEN_RECTANGLE = Some IXA_BOND_TYPE_DOUBLE"
| "bond_type_of_order ODD_RECTANGLE = Some IXA_BOND_TYPE_DOUBLE"
| "bond_type_of_order TRIPLE = Some IXA_BOND_TYPE_TRIPLE"
| "bond_type_of_order AROMATIC = Some IXA_BOND_TYPE_AROMATIC"
| "bond_type_of_order UNKNOWN = None"

definition create_bond :: "toolkit \<Rightarrow> Bond \<Rightarrow> BondOrder \<Rightarrow> IXAMolWrapper \<Rightarrow> error + IXAMolWrapper" where
  "create_bond tk bond order w =
     and_then (atom tk (to_int (fst bond)) w) (\<lambda>(atom1, w1).
       and_then (atom tk (to_int (snd bond)) w1) (\<lambda>(atom2, w2).
         let new_bond = IXA_MOL_CreateBond tk (calls w2);
             w3 = call (CreateBond atom1 atom2) w2;
             w4 = (case bond_type_of_order order of
                     Some t \<Rightarrow> call (SetBondType new_bond t) w3
                   | None \<Rightarrow> w3)
         in check_for_errors tk w4))"

text \<open>
  \<open>create_stereo_tetrahedron(center, a, parity)\<close>. The fourth vertex is the fourth
  neighbour if there is one and the implicit hydrogen if not. \<open>||\<close> does not ask the
  toolkit for the atomic number when there are three neighbours.
\<close>

definition create_stereo_tetrahedron ::
  "toolkit \<Rightarrow> nat \<Rightarrow> nat list \<Rightarrow> string \<Rightarrow> IXAMolWrapper
     \<Rightarrow> error + (IXA_STEREOID \<times> IXAMolWrapper)" where
  "create_stereo_tetrahedron tk center a parity w =
     (if \<not> 3 \<le> length a then Inl AssertionFailed
      else
        and_then (atom tk (to_int center) w) (\<lambda>(c0, w0).
        and_then (atom tk (to_int (a ! 0)) w0) (\<lambda>(v1, w1).
        and_then (atom tk (to_int (a ! 1)) w1) (\<lambda>(v2, w2).
        and_then (atom tk (to_int (a ! 2)) w2) (\<lambda>(v3, w3).
        and_then (if 4 \<le> length a then atom tk (to_int (a ! 3)) w3
                  else Inr (IXA_ATOMID_IMPLICIT_H, w3)) (\<lambda>(v4, w4).
          let swapped = (length a = 3 \<or> IXA_MOL_GetAtomAtomicNumber tk v4 = 1);
              first = (if swapped then v4 else v1);
              fourth = (if swapped then v1 else v4);
              st = IXA_MOL_CreateStereoTetrahedron tk (calls w4);
              w5 = call (CreateStereoTetrahedron c0 first v2 v3 fourth) w4;
              w6 = (if parity = ''odd'' then call (SetStereoParity st IXA_STEREO_PARITY_ODD) w5
                    else if parity = ''even'' then call (SetStereoParity st IXA_STEREO_PARITY_EVEN) w5
                    else if parity = ''none'' then call (SetStereoParity st IXA_STEREO_PARITY_NONE) w5
                    else call (SetStereoParity st IXA_STEREO_PARITY_UNKNOWN) w5)
          in and_then (check_for_errors tk w6) (\<lambda>w7. Inr (st, w7))))))))"

text \<open>
  \<open>is_zero_dimensions(frame)\<close>. \<open>Frame::distance\<close> is not among the sources (it takes the
  unit cell into account): \<open>distance i j\<close> stands for \<open>frame.distance(i, j)\<close> of the frame
  that is written.
\<close>

definition eps :: real where
  "eps = 1 / 1000000"

definition is_zero_dimensions :: "(nat \<Rightarrow> nat \<Rightarrow> real) \<Rightarrow> Frame \<Rightarrow> bool" where
  "is_zero_dimensions distance frame =
     (if frame_size frame = 0 \<or> frame_size frame = 1 then True
      else list_all (\<lambda>i. \<not> distance 0 i > eps) [1..<length (positions frame)])"

text \<open>A \<open>for\<close> loop over indices whose body may raise.\<close>

fun for_each :: "'i list \<Rightarrow> ('i \<Rightarrow> 's \<Rightarrow> error + 's) \<Rightarrow> 's \<Rightarrow> error + 's" where
  "for_each [] body s = Inr s"
| "for_each (i # others) body s = and_then (body i s) (for_each others body)"

text \<open>
  The adjacency list of \<open>write_next\<close>: each bond is pushed on the lists of both its
  atoms. An atom index past the end of the list is undefined behaviour.
\<close>

definition push_neighbour :: "nat \<Rightarrow> nat \<Rightarrow> nat list list \<Rightarrow> error + nat list list" where
  "push_neighbour i j adj_list =
     (if i < length adj_list then Inr (adj_list[i := adj_list ! i @ [j]]) else Inl Undefined)"

definition add_to_adj_list :: "Bond \<Rightarrow> nat list list \<Rightarrow> error + nat list list" where
  "add_to_adj_list bond adj_list =
     and_then (push_neighbour (fst bond) (snd bond) adj_list)
       (push_neighbour (snd bond) (fst bond))"

definition make_adj_list :: "Frame \<Rightarrow> error + nat list list" where
  "make_adj_list frame = for_each (bonds frame) add_to_adj_list (replicate (frame_size frame) [])"

text \<open>\<open>string_view::substr(pos)\<close> raises \<open>std::out_of_range\<close> when \<open>pos\<close> is past the end.\<close>

definition substr :: "string \<Rightarrow> nat \<Rightarrow> error + string" where
  "substr s pos = (if length s < pos then Inl OutOfRange else Inr (drop pos s))"

definition fewer_bonds_warning :: "string \<times> string" where
  "fewer_bonds_warning =
     (''InChI writer'', ''tetrahedral chirality property set for atom with fewer than 3 bonds'')"

text \<open>
  The body of the loop over the atoms of a frame of zero dimensions. \<open>chirality_of\<close> is
  its local \<open>chirality\<close>: the string property of that name, or the empty string.
\<close>

definition chirality_of :: "Frame \<Rightarrow> nat \<Rightarrow> string" where
  "chirality_of frame i =
     (case get_string_property ''chirality'' (atoms frame ! i) of Some s \<Rightarrow> s | None \<Rightarrow> [])"

definition write_stereo ::
  "toolkit \<Rightarrow> Frame \<Rightarrow> nat list list \<Rightarrow> nat \<Rightarrow> IXAMolWrapper \<Rightarrow> error + IXAMolWrapper" where
  "write_stereo tk frame adj_list i w =
     (let chirality = chirality_of frame i
      in if prefix ''tetrahedron'' chirality
         then if length (adj_list ! i) \<le> 2
              then Inr (w\<lparr>warnings := warnings w @ [fewer_bonds_warning]\<rparr>)
              else and_then (substr chirality 12) (\<lambda>parity.
                     and_then (create_stereo_tetrahedron tk i (adj_list ! i) parity w)
                       (\<lambda>(st, w'). Inr w'))
         else Inr w)"

text \<open>
  \<open>InChIFormat::write_next(frame)\<close>: the atoms, the bonds, the stereocentres if the frame
  has zero dimensions, and the two lines printed. The result is what is printed to the
  file and the state of the wrapper, with the calls made and the warnings given.
\<close>

definition write_atom ::
  "periodic_table \<Rightarrow> toolkit \<Rightarrow> Frame \<Rightarrow> nat \<Rightarrow> IXAMolWrapper \<Rightarrow> error + IXAMolWrapper" where
  "write_atom pt tk frame i w =
     (if i < length (positions frame) then create_atom pt tk (atoms frame ! i) (positions frame ! i) w
      else Inl Undefined)"

definition write_bond :: "toolkit \<Rightarrow> Frame \<Rightarrow> nat \<Rightarrow> IXAMolWrapper \<Rightarrow> error + IXAMolWrapper" where
  "write_bond tk frame i w =
     (if i < length (bond_orders frame) then create_bond tk (bonds frame ! i) (bond_orders frame ! i) w
      else Inl Undefined)"

definition get_strings :: "toolkit \<Rightarrow> IXAMolWrapper \<Rightarrow> string \<times> string" where
  "get_strings tk w = (IXA_INCHIBUILDER_GetInChIEx tk (calls w), IXA_INCHIBUILDER_GetAuxInfo tk (calls w))"

definition write_next ::
  "periodic_table \<Rightarrow> toolkit \<Rightarrow> (nat \<Rightarrow> nat \<Rightarrow> real) \<Rightarrow> Frame \<Rightarrow> error + (string list \<times> IXAMolWrapper)" where
  "write_next pt tk distance frame =
     and_then (new_IXAMolWrapper tk) (\<lambda>writer.
     and_then (for_each [0..<frame_size frame] (write_atom pt tk frame) writer) (\<lambda>writer.
     and_then (for_each [0..<length (bonds frame)] (write_bond tk frame) writer) (\<lambda>writer.
     and_then (if is_zero_dimensions distance frame
               then and_then (make_adj_list frame) (\<lambda>adj_list.
                      for_each [0..<frame_size frame] (write_stereo tk frame adj_list) writer)
               else Inr writer) (\<lambda>writer.
       let result = get_strings tk writer
       in Inr ([fst result @ [CHR 0x0A], snd result @ [CHR 0x0A]], writer)))))"

text \<open>
  To speak of what a write has done: the calls in the log that create a stereocentre,
  and the atoms for which the loop above reaches \<open>create_stereo_tetrahedron\<close>.
\<close>

fun is_stereo_call :: "ixa_call \<Rightarrow> bool" where
  "is_stereo_call (CreateStereoTetrahedron c0 v1 v2 v3 v4) = True"
| "is_stereo_call c = False"

definition stereo_calls :: "IXAMolWrapper \<Rightarrow> ixa_call list" where
  "stereo_calls w = filter is_stereo_call (calls w)"

definition reaches_stereo :: "Frame \<Rightarrow> nat list list \<Rightarrow> nat \<Rightarrow> bool" where
  "reaches_stereo frame adj_list i =
     (prefix ''tetrahedron'' (chirality_of frame i) \<and> \<not> length (adj_list ! i) \<le> 2)"

text \<open>
  A step of the write that creates no stereocentre and takes no warning back: the
  relation between the states before and after it.
\<close>

definition quiet_step :: "IXAMolWrapper \<Rightarrow> IXAMolWrapper \<Rightarrow> bool" where
  "quiet_step w w' = (stereo_calls w' = stereo_calls w \<and> prefix (warnings w) (warnings w'))"

subsection \<open>An example\<close>

text \<open>
  A toolkit that never reports anything and holds two bonded atoms, a carbon of mass 13
  and charge \<open>-1\<close> with one deuterium, and a plain hydrogen; and a periodic table for
  them. The theorems are tried at these.
\<close>

definition example_table :: periodic_table where
  "example_table name =
     (if name = ''C'' then Some (6, 12011 / 1000)
      else if name = ''H'' then Some (1, 1008 / 1000) else None)"

definition example_toolkit :: toolkit where
  "example_toolkit =
     \<lparr>IXA_STATUS_entries = (\<lambda>n. []),
      IXA_MOL_GetNumAtoms = 2,
      IXA_MOL_GetNumBonds = 1,
      IXA_MOL_GetNumStereos = 0,
      IXA_MOL_GetAtomId = (\<lambda>i. IXA_ATOMID (nat (i + 10))),
      IXA_MOL_GetBondId = (\<lambda>i. IXA_BONDID (nat i)),
      IXA_MOL_GetStereoId = (\<lambda>i. IXA_STEREOID (nat i)),
      IXA_MOL_GetAtomIndex =
        (\<lambda>a. case a of IXA_ATOMID n \<Rightarrow> int n - 10 | IXA_ATOMID_IMPLICIT_H \<Rightarrow> - 1),
      IXA_MOL_GetAtomElement = (\<lambda>a. if a = IXA_ATOMID 10 then ''C'' else ''H''),
      IXA_MOL_GetAtomAtomicNumber = (\<lambda>a. if a = IXA_ATOMID 10 then 6 else 1),
      IXA_MOL_GetAtomMass = (\<lambda>a. if a = IXA_ATOMID 10 then 13 else 0),
      IXA_MOL_GetAtomCharge = (\<lambda>a. if a = IXA_ATOMID 10 then - 1 else 0),
      IXA_MOL_GetAtomRadical = (\<lambda>a. IXA_ATOM_RADICAL_NONE),
      IXA_MOL_GetAtomHydrogens = (\<lambda>a m. if a = IXA_ATOMID 10 \<and> m = 2 then 1 else 0),
      IXA_MOL_GetAtomX = (\<lambda>a. 0),
      IXA_MOL_GetAtomY = (\<lambda>a. 0),
      IXA_MOL_GetAtomZ = (\<lambda>a. 0),
      IXA_MOL_GetBondType = (\<lambda>b. IXA_BOND_TYPE_SINGLE),
      IXA_MOL_GetBondAtom1 = (\<lambda>b. IXA_ATOMID 10),
      IXA_MOL_GetBondAtom2 = (\<lambda>b. IXA_ATOMID 11),
      IXA_MOL_GetStereoTopology = (\<lambda>s. IXA_STEREO_TOPOLOGY_INVALID),
      IXA_MOL_GetStereoParity = (\<lambda>s. IXA_STEREO_PARITY_NONE),
      IXA_MOL_GetStereoCentralAtom = (\<lambda>s. IXA_ATOMID 10),
      IXA_MOL_GetStereoCentralBond = (\<lambda>s. IXA_BONDID 0),
      IXA_MOL_CreateAtom = (\<lambda>log. IXA_ATOMID (10 + length (filter (\<lambda>c. c = CreateAtom) log))),
      IXA_MOL_CreateBond = (\<lambda>log. IXA_BONDID (length log)),
      IXA_MOL_CreateStereoTetrahedron = (\<lambda>log. IXA_STEREOID (length log)),
      IXA_INCHIBUILDER_GetInChIEx = (\<lambda>log. ''InChI=1S/''),
      IXA_INCHIBUILDER_GetAuxInfo = (\<lambda>log. ''AuxInfo=1/'')\<rparr>"

definition empty_frame :: Frame where
  "empty_frame = \<lparr>atoms = [], positions = [], bonds = [], bond_orders = []\<rparr>"

text \<open>
  Three frames for the write path, with every atom at the origin: a carbon marked
  \<open>tetrahedron_even\<close> alone, with two hydrogens bonded to it, and with three.
\<close>

definition chiral_carbon :: Atom where
  "chiral_carbon =
     set_property ''chirality'' (PROPERTY_STRING ''tetrahedron_even'') (new_Atom example_table ''C'')"

definition lone_chiral_atom :: Frame where
  "lone_chiral_atom =
     \<lparr>atoms = [chiral_carbon], positions = [(0, 0, 0)], bonds = [], bond_orders = []\<rparr>"

definition chiral_CH2 :: Frame where
  "chiral_CH2 =
     \<lparr>atoms = [chiral_carbon, new_Atom example_table ''H'', new_Atom example_table ''H''],
      positions = [(0, 0, 0), (0, 0, 0), (0, 0, 0)],
      bonds = [(0, 1), (0, 2)], bond_orders = [SINGLE, SINGLE]\<rparr>"

definition chiral_CH3 :: Frame where
  "chiral_CH3 =
     \<lparr>atoms = [chiral_carbon, new_Atom example_table ''H'', new_Atom example_table ''H'',
               new_Atom example_table ''H''],
      positions = [(0, 0, 0), (0, 0, 0), (0, 0, 0), (0, 0, 0)],
      bonds = [(0, 1), (0, 2), (0, 3)], bond_orders = [SINGLE, SINGLE, SINGLE]\<rparr>"

subsection \<open>A frame on a line\<close>

text \<open>
  Modelled from the spec: \<open>Frame::distance\<close> is not among the sources. For a frame
  without a unit cell the distance of two atoms is the Euclidean distance of their
  positions, which \<open>frame_distance\<close> gives for two atoms of the frame. The spec calls a
  geometry degenerate when all positions are collinear: the vectors from atom 0 to any
  two atoms have the cross product zero. \<open>line_CH2\<close> is the marked carbon with its two
  hydrogens, the three atoms one unit apart on the first axis.
\<close>

definition frame_distance :: "Frame \<Rightarrow> nat \<Rightarrow> nat \<Rightarrow> real" where
  "frame_distance frame i j =
     (case (positions frame ! i, positions frame ! j) of
        ((x1, y1, z1), (x2, y2, z2)) \<Rightarrow> sqrt ((x1 - x2)\<^sup>2 + (y1 - y2)\<^sup>2 + (z1 - z2)\<^sup>2))"

definition difference :: "Vector3D \<Rightarrow> Vector3D \<Rightarrow> Vector3D" where
  "difference p q = (case (p, q) of ((x1, y1, z1), (x2, y2, z2)) \<Rightarrow> (x1 - x2, y1 - y2, z1 - z2))"

definition cross :: "Vector3D \<Rightarrow> Vector3D \<Rightarrow> Vector3D" where
  "cross p q =
     (case (p, q) of
        ((x1, y1, z1), (x2, y2, z2)) \<Rightarrow> (y1 * z2 - z1 * y2, z1 * x2 - x1 * z2, x1 * y2 - y1 * x2))"

definition collinear_positions :: "Vector3D list \<Rightarrow> bool" where
  "collinear_positions ps =
     (case ps of
        [] \<Rightarrow> True
      | p0 # others \<Rightarrow>
          list_all (\<lambda>p. list_all (\<lambda>q. cross (difference p p0) (difference q p0) = (0, 0, 0)) others)
            others)"

definition line_CH2 :: Frame where
  "line_CH2 =
     \<lparr>atoms = [chiral_carbon, new_Atom example_table ''H'', new_Atom example_table ''H''],
      positions = [(0, 0, 0), (1, 0, 0), (2, 0, 0)],
      bonds = [(0, 1), (0, 2)], bond_orders = [SINGLE, SINGLE]\<rparr>"

section \<open>The binary random-access codec (TRR.hpp)\<close>

text \<open>
  \<open>TRRFormat::FrameHeader\<close>, as TRR.hpp declares it.
\<close>

record FrameHeader =
  use_double :: bool
  ir_size :: int
  e_size :: int
  box_size :: int
  vir_size :: int
  pres_size :: int
  top_size :: int
  sym_size :: int
  x_size :: int
  v_size :: int
  f_size :: int
  natoms :: int
  step :: int
  nre :: int
  time :: real
  lambda :: real

text \<open>
  Modelled from the spec: TRR.hpp declares the class \<open>TRRFormat\<close>, and neither its
  methods nor \<open>XDRFile\<close> are among the sources. The spec gives the persisted layout as a
  sequence of records, each a header and a payload; the header declares the atom count
  and the byte size of every optional section, and a payload whose length in the stream
  is not the sum of the declared sizes is a corrupt file. The layout of a header is left
  to the format, so a stored frame carries the length its header takes in the stream.
\<close>

record stored_frame =
  header :: FrameHeader
  header_bytes :: nat
  payload_bytes :: nat

definition frame_bytes :: "stored_frame \<Rightarrow> nat" where
  "frame_bytes f = header_bytes f + payload_bytes f"

definition declared_payload :: "FrameHeader \<Rightarrow> int" where
  "declared_payload h =
     ir_size h + e_size h + box_size h + vir_size h + pres_size h + top_size h + sym_size h
     + x_size h + v_size h + f_size h"

text \<open>The byte offset at which the \<open>k\<close>-th record starts, and the length of the stream.\<close>

definition offset_of :: "stored_frame list \<Rightarrow> nat \<Rightarrow> nat" where
  "offset_of stream k = sum_list (map frame_bytes (take k stream))"

definition stream_length :: "stored_frame list \<Rightarrow> nat" where
  "stream_length stream = sum_list (map frame_bytes stream)"

text \<open>Reading a header at a byte offset finds the record that starts there, if one does.\<close>

fun frame_at :: "stored_frame list \<Rightarrow> nat \<Rightarrow> stored_frame option" where
  "frame_at [] p = None"
| "frame_at (f # fs) p =
     (if p = 0 then Some f
      else if p < frame_bytes f then None
      else frame_at fs (p - frame_bytes f))"

text \<open>
  Modelled from the spec: the state of the codec. \<open>stream\<close> is the content of the member
  \<open>file_\<close>, \<open>frame_offsets\<close> the member \<open>frame_offsets_\<close>, \<open>next_step\<close> the member
  \<open>step_\<close> and \<open>trajectory_natoms\<close> the member \<open>natoms_\<close>. \<open>last_known_offset\<close> is the
  offset from which, in the words of the spec, the scan goes on; \<open>scanned\<close> records the
  byte ranges whose headers the index pass has parsed, to state what it reads.
  At first nothing is indexed and only the position at the start of the stream is known.
\<close>

record TRRFormat =
  stream :: "stored_frame list"
  frame_offsets :: "nat list"
  next_step :: nat
  trajectory_natoms :: nat
  last_known_offset :: nat
  scanned :: "(nat \<times> nat) list"

definition open_trr :: "stored_frame list \<Rightarrow> TRRFormat" where
  "open_trr s =
     \<lparr>stream = s, frame_offsets = [], next_step = 0, trajectory_natoms = 0,
      last_known_offset = 0, scanned = []\<rparr>"

text \<open>
  Modelled from the spec: what every parsed header is held to. A header without a
  length or with a negative size is a bad header; the atom count of the first frame
  fixes \<open>natoms_\<close>, and a later header with another atom count is an inconsistent
  trajectory; a payload of another length than declared is a corrupt file. All are
  format errors.
\<close>

definition check_frame :: "TRRFormat \<Rightarrow> stored_frame \<Rightarrow> error + unit" where
  "check_frame c f =
     (if header_bytes f = 0 \<or> natoms (header f) < 0 \<or> declared_payload (header f) < 0
      then Inl (FormatError ''bad frame header'')
      else if frame_offsets c \<noteq> [] \<and> to_size_t (natoms (header f)) \<noteq> trajectory_natoms c
      then Inl (FormatError
             (''inconsistent trajectory: expected '' @ fmt_nat (trajectory_natoms c)
              @ '' atoms, but the frame declares '' @ fmt_nat (to_size_t (natoms (header f)))))
      else if int (payload_bytes f) \<noteq> declared_payload (header f)
      then Inl (FormatError ''corrupt file: the payload does not have the declared size'')
      else Inr ())"

text \<open>
  Modelled from the spec: one step of the indexing. From the last known offset the codec
  parses one frame header, records the offset of the frame start in the table, and skips
  the body without decoding it. At the end of the stream there is nothing to do.
\<close>

definition index_next :: "TRRFormat \<Rightarrow> error + TRRFormat" where
  "index_next c =
     (let p = last_known_offset c in
      if p = stream_length (stream c) then Inr c
      else case frame_at (stream c) p of
             None \<Rightarrow> Inl (FormatError ''bad frame header'')
           | Some f \<Rightarrow>
               and_then (check_frame c f) (\<lambda>u.
                 Inr (c\<lparr>frame_offsets := frame_offsets c @ [p],
                        trajectory_natoms :=
                          (if frame_offsets c = [] then to_size_t (natoms (header f))
                           else trajectory_natoms c),
                        last_known_offset := p + frame_bytes f,
                        scanned := scanned c @ [(p, p + header_bytes f)]\<rparr>)))"

text \<open>
  Modelled from the spec: the indexing, which goes on until the table covers the step
  asked for (\<open>Some k\<close>) or, for \<open>nsteps()\<close>, the whole stream (\<open>None\<close>).
\<close>

definition covers :: "nat option \<Rightarrow> TRRFormat \<Rightarrow> bool" where
  "covers target c = (case target of Some k \<Rightarrow> k < length (frame_offsets c) | None \<Rightarrow> False)"

lemma index_next_advances:
  assumes "index_next c = Inr c'" and "last_known_offset c \<noteq> stream_length (stream c)"
  shows "stream c' = stream c" and "last_known_offset c < last_known_offset c'"
  using assms
  by (auto simp: index_next_def Let_def and_then_def check_frame_def frame_bytes_def
      split: option.splits sum.splits if_splits)

function index_until :: "nat option \<Rightarrow> TRRFormat \<Rightarrow> error + TRRFormat" where
  "index_until target c =
     (if covers target c \<or> stream_length (stream c) \<le> last_known_offset c then Inr c
      else and_then (index_next c) (index_until target))"
  by pat_completeness auto
termination
proof (relation "measure (\<lambda>(target, c). stream_length (stream c) - last_known_offset c)")
  show "wf (measure (\<lambda>(target, c). stream_length (stream c) - last_known_offset c))"
    by simp
next
  fix target :: "nat option" and c c' :: TRRFormat
  assume g: "\<not> (covers target c \<or> stream_length (stream c) \<le> last_known_offset c)"
    and n: "index_next c = Inr c'"
  from g have "last_known_offset c \<noteq> stream_length (stream c)" by simp
  from index_next_advances [OF n this] g
  show "((target, c'), (target, c))
      \<in> measure (\<lambda>(target, c). stream_length (stream c) - last_known_offset c)"
    by (simp add: diff_less_mono2 not_le)
qed

declare index_until.simps [simp del]

text \<open>
  Modelled from the spec: \<open>nsteps()\<close> indexes the whole stream and counts the frames;
  \<open>read_step(step)\<close> indexes as far as the step, goes to the offset recorded for it
  and reads the frame there, whose header is parsed and checked again. The frame read
  is given by its stored record.
\<close>

definition nsteps :: "TRRFormat \<Rightarrow> error + (nat \<times> TRRFormat)" where
  "nsteps c = and_then (index_until None c) (\<lambda>c'. Inr (length (frame_offsets c'), c'))"

definition read_step :: "nat \<Rightarrow> TRRFormat \<Rightarrow> error + (stored_frame \<times> TRRFormat)" where
  "read_step k c =
     and_then (index_until (Some k) c) (\<lambda>c1.
       if length (frame_offsets c1) \<le> k
       then Inl (FileError (''can not read the step '' @ fmt_nat k @ '': the file has only ''
                            @ fmt_nat (length (frame_offsets c1)) @ '' steps''))
       else case frame_at (stream c1) (frame_offsets c1 ! k) of
              None \<Rightarrow> Inl (FormatError ''bad frame header'')
            | Some f \<Rightarrow>
                and_then (check_frame c1 f) (\<lambda>u. Inr (f, c1\<lparr>next_step := k + 1\<rparr>)))"

text \<open>A sequence of calls on one codec, each with the state the one before has left.\<close>

datatype trr_call = ReadStep nat | NSteps

fun apply_call :: "trr_call \<Rightarrow> TRRFormat \<Rightarrow> error + TRRFormat" where
  "apply_call (ReadStep k) c = and_then (read_step k c) (\<lambda>(f, c'). Inr c')"
| "apply_call NSteps c = and_then (nsteps c) (\<lambda>(n, c'). Inr c')"

definition trr_calls :: "trr_call list \<Rightarrow> stored_frame list \<Rightarrow> error + TRRFormat" where
  "trr_calls cs s = for_each cs apply_call (open_trr s)"

text \<open>
  What holds of a codec after any calls (it is kept by the indexing): the table holds
  the offsets of the first frames of the stream, in order; the last known offset is
  where the next frame starts; the ranges scanned are the headers of these frames; and
  each of them has a header of some length and declares the atom count of the trajectory.
\<close>

definition indexed :: "TRRFormat \<Rightarrow> bool" where
  "indexed c =
     (length (frame_offsets c) \<le> length (stream c)
      \<and> frame_offsets c = map (offset_of (stream c)) [0..<length (frame_offsets c)]
      \<and> last_known_offset c = offset_of (stream c) (length (frame_offsets c))
      \<and> scanned c = map (\<lambda>j. (offset_of (stream c) j, offset_of (stream c) j + header_bytes (stream c ! j)))
                       [0..<length (frame_offsets c)]
      \<and> (\<forall>j < length (frame_offsets c).
            0 < header_bytes (stream c ! j)
            \<and> to_size_t (natoms (header (stream c ! j))) = trajectory_natoms c))"

text \<open>
  How a call may change the index: the stream is the same, the table and the list of the
  ranges scanned are extended at their ends, and every range scanned by the call starts
  at the offset last known before it, or behind.
\<close>

definition index_grows :: "TRRFormat \<Rightarrow> TRRFormat \<Rightarrow> bool" where
  "index_grows c c' =
     (stream c' = stream c
      \<and> last_known_offset c \<le> last_known_offset c'
      \<and> (\<exists>added. frame_offsets c' = frame_offsets c @ added)
      \<and> (\<exists>ranges. scanned c' = scanned c @ ranges
                   \<and> (\<forall>r \<in> set ranges. last_known_offset c \<le> fst r)))"

text \<open>
  A stored frame of \<open>n\<close> atoms in single precision with coordinates only, behind a
  header of 84 bytes, for the examples.
\<close>

definition example_stored_frame :: "int \<Rightarrow> stored_frame" where
  "example_stored_frame n =
     \<lparr>header = \<lparr>use_double = False, ir_size = 0, e_size = 0, box_size = 0, vir_size = 0,
                pres_size = 0, top_size = 0, sym_size = 0, x_size = 12 * n, v_size = 0,
                f_size = 0, natoms = n, step = 0, nre = 0, time = 0, lambda = 0\<rparr>,
      header_bytes = 84, payload_bytes = nat (12 * n)\<rparr>"

chapter \<open>Properties\<close>

section \<open>The token parser\<close>

lemma parse_int64_below_int32:
  "parse_int64 ''-2147483649'' = Inr (- 2147483649)"
  by (simp add: parse_int64_def check_parse_errors_def is_digit_def Let_def)

text \<open>
  Claim C1. The spec has \<open>parse<T>\<close>, for an integer type \<open>T\<close> narrower than 64 bits,
  fail whenever the 64-bit value parsed lies outside the range of \<open>T\<close>, above its
  maximum or below its minimum. \<open>convert_integer\<close> compares the value with the maximum
  only: \<open>-2147483649\<close>, one below the least \<open>int32_t\<close>, passes the test and is cut to
  its low 32 bits, so that \<open>parse<int32_t>("-2147483649")\<close> returns \<open>2147483647\<close>.
\<close>

theorem parse_int32_below_min_truncated:
  "convert_integer_signed (- 2147483649) = (Inr 2147483647 :: error + 32 word)
   \<and> parse_integer_signed ''-2147483649'' = (Inr 2147483647 :: error + 32 word)"
  by (simp add: parse_integer_signed_def parse_int64_below_int32 convert_integer_signed_def
      numeric_limits_max_signed_def word_sless_alt)

lemma fields_Nil: "dropWhile ws s = [] \<Longrightarrow> line_fields ws s = []"
  by (simp add: line_fields.simps)

lemma fields_Cons:
  "dropWhile ws s \<noteq> [] \<Longrightarrow>
   line_fields ws s = takeWhile (\<lambda>c. \<not> ws c) (dropWhile ws s)
                 # line_fields ws (dropWhile (\<lambda>c. \<not> ws c) (dropWhile ws s))"
  by (subst line_fields.simps) simp

lemma next_no_field:
  assumes "line_fields ws (input it) = []"
  shows "tokens_iterator_next ws it = Inl (Error (too_few_message (count it)))"
proof -
  have "dropWhile ws (input it) = []"
    using assms fields_Cons [of ws "input it"] by (cases "dropWhile ws (input it) = []") auto
  then have "drop (length (takeWhile ws (input it))) (input it) = []"
    by (simp only: dropWhile_eq_drop)
  then show ?thesis
    by (simp add: tokens_iterator_next_def remove_prefix_def Let_def too_few_message_def)
qed

lemma next_field:
  assumes "line_fields ws (input it) = t # ts"
  shows "\<exists>it'. tokens_iterator_next ws it = Inr (t, it') \<and> line_fields ws (input it') = ts
           \<and> count it' = count it + 1"
proof -
  let ?s' = "dropWhile ws (input it)"
  have ne: "?s' \<noteq> []"
    using assms fields_Nil [of ws "input it"] by auto
  have t: "t = takeWhile (\<lambda>c. \<not> ws c) ?s'" and ts: "ts = line_fields ws (dropWhile (\<lambda>c. \<not> ws c) ?s')"
    using assms fields_Cons [OF ne] by auto
  have "\<not> ws (hd ?s')"
    by (rule hd_dropWhile [OF ne])
  then have pos: "takeWhile (\<lambda>c. \<not> ws c) ?s' \<noteq> []"
    using ne by (cases ?s') auto
  have d: "drop (length (takeWhile ws (input it))) (input it) = ?s'"
    by (simp only: dropWhile_eq_drop)
  have tk: "take (length (takeWhile (\<lambda>c. \<not> ws c) ?s')) ?s' = takeWhile (\<lambda>c. \<not> ws c) ?s'"
    by (simp only: takeWhile_eq_take [symmetric])
  have dr: "drop (length (takeWhile (\<lambda>c. \<not> ws c) ?s')) ?s' = dropWhile (\<lambda>c. \<not> ws c) ?s'"
    by (simp only: dropWhile_eq_drop [symmetric])
  show ?thesis
    using pos
    by (simp add: tokens_iterator_next_def remove_prefix_def Let_def d tk dr t ts)
qed

lemma scan_impl_too_few:
  "length (line_fields ws (input it)) < Suc (length ps) \<Longrightarrow>
   (\<forall>i < length (line_fields ws (input it)). \<exists>v. ((p # ps) ! i) (line_fields ws (input it) ! i) = Inr v) \<Longrightarrow>
   scan_impl ws it p ps = Inl (Error (too_few_message (count it + length (line_fields ws (input it)))))"
proof (induction ps arbitrary: it p)
  case Nil
  then have "line_fields ws (input it) = []" by simp
  then show ?case by (simp add: next_no_field)
next
  case (Cons q qs)
  show ?case
  proof (cases "line_fields ws (input it)")
    case Nil
    then show ?thesis by (simp add: next_no_field)
  next
    case (Cons t ts)
    from next_field [OF Cons] obtain it' where
      n: "tokens_iterator_next ws it = Inr (t, it')" and f: "line_fields ws (input it') = ts"
      and c: "count it' = count it + 1" by blast
    from Cons.prems(2) Cons obtain v where v: "p t = Inr v" by fastforce
    have len: "length (line_fields ws (input it')) < Suc (length qs)"
      using Cons.prems(1) Cons f by simp
    have ok: "\<forall>i < length (line_fields ws (input it')). \<exists>v. ((q # qs) ! i) (line_fields ws (input it') ! i) = Inr v"
    proof (intro allI impI)
      fix i assume "i < length (line_fields ws (input it'))"
      then have "Suc i < length (line_fields ws (input it))" using Cons f by simp
      with Cons.prems(2) have "\<exists>v. ((p # q # qs) ! Suc i) (line_fields ws (input it) ! Suc i) = Inr v" by blast
      then show "\<exists>v. ((q # qs) ! i) (line_fields ws (input it') ! i) = Inr v" using Cons f by simp
    qed
    from Cons.IH [OF len ok] show ?thesis
      using n v c f Cons by simp
  qed
qed

lemma scan_impl_fails:
  "length (line_fields ws (input it)) < Suc (length ps) \<Longrightarrow> \<exists>e. scan_impl ws it p ps = Inl e"
proof (induction ps arbitrary: it p)
  case Nil
  then have "line_fields ws (input it) = []" by simp
  then show ?case by (simp add: next_no_field)
next
  case (Cons q qs)
  show ?case
  proof (cases "line_fields ws (input it)")
    case Nil
    then show ?thesis by (simp add: next_no_field)
  next
    case (Cons t ts)
    from next_field [OF Cons] obtain it' where
      n: "tokens_iterator_next ws it = Inr (t, it')" and f: "line_fields ws (input it') = ts"
      by blast
    have "length (line_fields ws (input it')) < Suc (length qs)"
      using Cons.prems Cons f by simp
    from Cons.IH [OF this] obtain e where "scan_impl ws it' q qs = Inl e" by blast
    then show ?thesis using n by (simp split: sum.splits)
  qed
qed

lemma scan_impl_parse_failure:
  "i < length (line_fields ws (input it)) \<Longrightarrow> i < Suc (length ps) \<Longrightarrow>
   ((p # ps) ! i) (line_fields ws (input it) ! i) = Inl e \<Longrightarrow>
   (\<forall>j < i. \<exists>v. ((p # ps) ! j) (line_fields ws (input it) ! j) = Inr v) \<Longrightarrow>
   scan_impl ws it p ps = Inl e"
proof (induction ps arbitrary: it p i)
  case Nil
  then have i: "i = 0" by simp
  from Nil.prems(1) obtain t ts where ft: "line_fields ws (input it) = t # ts"
    by (cases "line_fields ws (input it)") auto
  from next_field [OF ft] obtain it' where
    n: "tokens_iterator_next ws it = Inr (t, it')" by blast
  show ?case using Nil.prems(3) i ft n by simp
next
  case (Cons q qs)
  from Cons.prems(1) obtain t ts where ft: "line_fields ws (input it) = t # ts"
    by (cases "line_fields ws (input it)") auto
  from next_field [OF ft] obtain it' where
    n: "tokens_iterator_next ws it = Inr (t, it')" and f: "line_fields ws (input it') = ts"
    by blast
  show ?case
  proof (cases i)
    case 0
    then show ?thesis using Cons.prems(3) ft n by simp
  next
    case (Suc k)
    from Cons.prems(4) Suc ft obtain v where v: "p t = Inr v" by fastforce
    have 1: "k < length (line_fields ws (input it'))" using Cons.prems(1) Suc ft f by simp
    have 2: "k < Suc (length qs)" using Cons.prems(2) Suc by simp
    have 3: "((q # qs) ! k) (line_fields ws (input it') ! k) = Inl e"
      using Cons.prems(3) Suc ft f by simp
    have 4: "\<forall>j < k. \<exists>v. ((q # qs) ! j) (line_fields ws (input it') ! j) = Inr v"
    proof (intro allI impI)
      fix j assume "j < k"
      then have "Suc j < i" using Suc by simp
      with Cons.prems(4) have "\<exists>v. ((p # q # qs) ! Suc j) (line_fields ws (input it) ! Suc j) = Inr v" by blast
      then show "\<exists>v. ((q # qs) ! j) (line_fields ws (input it') ! j) = Inr v" using ft f by simp
    qed
    from Cons.IH [OF 1 2 3 4] show ?thesis using n v by simp
  qed
qed


lemma scan_wraps:
  "scan_impl ws (make_tokens_iterator line) p ps = Inl e \<Longrightarrow> is_chemfiles_error e \<Longrightarrow>
   scan ws line p ps = Inl (Error (''error while reading '' @ quoted line @ '': '' @ what e))"
  by (simp add: scan_def)

text \<open>
  Claim C2, as amended. When a line has fewer fields than \<open>scan\<close> has slots, \<open>scan\<close>
  fails. If the fields that are there all parse, the error is the one of
  \<open>tokens_iterator::next()\<close>, which knows how many values it has handed out and not how
  many slots there are: with \<open>k\<close> fields it reads "tried to read \<open>k + 1\<close> values, but
  there are only \<open>k\<close>", behind the line. This names the number of slots only when exactly
  one field is missing, as for "1 2" and three slots. And when the parser of a field
  raises a \<open>chemfiles::Error\<close> (the fields before it having parsed), \<open>scan\<close> raises an
  error made of the line and of that error's message.
\<close>

theorem scan_too_few_fields:
  "(length (line_fields ws line) < length (p # ps) \<longrightarrow> (\<exists>e. scan ws line p ps = Inl e))
   \<and> (length (line_fields ws line) < length (p # ps)
        \<and> (\<forall>i < length (line_fields ws line). \<exists>v. ((p # ps) ! i) (line_fields ws line ! i) = Inr v)
      \<longrightarrow> scan ws line p ps =
            Inl (Error (''error while reading '' @ quoted line @ '': tried to read ''
                        @ fmt_nat (length (line_fields ws line) + 1)
                        @ '' values, but there are only '' @ fmt_nat (length (line_fields ws line)))))
   \<and> (\<forall>i e. i < length (line_fields ws line) \<and> i < length (p # ps)
          \<and> ((p # ps) ! i) (line_fields ws line ! i) = Inl e \<and> is_chemfiles_error e
          \<and> (\<forall>j < i. \<exists>v. ((p # ps) ! j) (line_fields ws line ! j) = Inr v)
        \<longrightarrow> scan ws line p ps =
              Inl (Error (''error while reading '' @ quoted line @ '': '' @ what e)))"
proof (intro conjI impI allI)
  assume "length (line_fields ws line) < length (p # ps)"
  then have "length (line_fields ws (input (make_tokens_iterator line))) < Suc (length ps)"
    by (simp add: make_tokens_iterator_def)
  from scan_impl_fails [OF this] obtain e
    where "scan_impl ws (make_tokens_iterator line) p ps = Inl e" by blast
  then show "\<exists>e. scan ws line p ps = Inl e"
    by (simp add: scan_def)
next
  assume a: "length (line_fields ws line) < length (p # ps)
        \<and> (\<forall>i < length (line_fields ws line). \<exists>v. ((p # ps) ! i) (line_fields ws line ! i) = Inr v)"
  let ?it = "make_tokens_iterator line"
  have i: "input ?it = line" and c: "count ?it = 0"
    by (simp_all add: make_tokens_iterator_def)
  have 1: "length (line_fields ws (input ?it)) < Suc (length ps)"
    using a i by simp
  have 2: "\<forall>i < length (line_fields ws (input ?it)). \<exists>v. ((p # ps) ! i) (line_fields ws (input ?it) ! i) = Inr v"
    using a i by simp
  have "scan_impl ws ?it p ps = Inl (Error (too_few_message (length (line_fields ws line))))"
    using scan_impl_too_few [OF 1 2] i c by simp
  from scan_wraps [OF this] show "scan ws line p ps =
            Inl (Error (''error while reading '' @ quoted line @ '': tried to read ''
                        @ fmt_nat (length (line_fields ws line) + 1)
                        @ '' values, but there are only '' @ fmt_nat (length (line_fields ws line))))"
    by (simp add: too_few_message_def)
next
  fix i e
  assume a: "i < length (line_fields ws line) \<and> i < length (p # ps)
          \<and> ((p # ps) ! i) (line_fields ws line ! i) = Inl e \<and> is_chemfiles_error e
          \<and> (\<forall>j < i. \<exists>v. ((p # ps) ! j) (line_fields ws line ! j) = Inr v)"
  let ?it = "make_tokens_iterator line"
  have i: "input ?it = line"
    by (simp add: make_tokens_iterator_def)
  have "scan_impl ws ?it p ps = Inl e"
    by (rule scan_impl_parse_failure [of i]) (use a i in simp_all)
  from scan_wraps [OF this] a
  show "scan ws line p ps = Inl (Error (''error while reading '' @ quoted line @ '': '' @ what e))"
    by simp
qed

text \<open>
  The theorem at work: "1 2" scanned into three strings, and "1 x 3" scanned into four
  integers, where the second field is the one that fails.
\<close>

lemma fields_1_2: "line_fields is_whitespace ''1 2'' = [''1'', ''2'']"
  by (simp add: line_fields.simps is_whitespace_def)

lemma fields_1_x_3: "line_fields is_whitespace ''1 x 3'' = [''1'', ''x'', ''3'']"
  by (simp add: line_fields.simps is_whitespace_def)

lemma parse_int64_1: "parse_int64 ''1'' = Inr 1"
  by (simp add: parse_int64_def check_parse_errors_def is_digit_def Let_def)

lemma parse_int64_x: "parse_int64 ''x'' = Inl (Error ''can not convert 'x' to a integer'')"
  by (simp add: parse_int64_def check_parse_errors_def is_digit_def Let_def quoted_def)

theorem scan_too_few_fields_witness:
  "scan is_whitespace ''1 2'' parse_string [parse_string, parse_string]
     = Inl (Error ''error while reading '1 2': tried to read 3 values, but there are only 2'')
   \<and> scan is_whitespace ''1 x 3'' parse_int64 [parse_int64, parse_int64, parse_int64]
     = Inl (Error ''error while reading '1 x 3': can not convert 'x' to a integer'')"
proof
  have "\<forall>i < length (line_fields is_whitespace ''1 2'').
          \<exists>v. (([parse_string, parse_string, parse_string]) ! i) (line_fields is_whitespace ''1 2'' ! i) = Inr v"
    by (simp add: fields_1_2 parse_string_def less_Suc_eq)
  then show "scan is_whitespace ''1 2'' parse_string [parse_string, parse_string]
     = Inl (Error ''error while reading '1 2': tried to read 3 values, but there are only 2'')"
    using scan_too_few_fields [of is_whitespace "''1 2''" parse_string "[parse_string, parse_string]"]
    by (simp add: fields_1_2 quoted_def fmt_nat.simps digit_char_def)
next
  have "\<forall>j < (1::nat). \<exists>v. (([parse_int64, parse_int64, parse_int64, parse_int64]) ! j)
          (line_fields is_whitespace ''1 x 3'' ! j) = Inr v"
    by (simp add: fields_1_x_3 parse_int64_1)
  then show "scan is_whitespace ''1 x 3'' parse_int64 [parse_int64, parse_int64, parse_int64]
     = Inl (Error ''error while reading '1 x 3': can not convert 'x' to a integer'')"
    using scan_too_few_fields [of is_whitespace "''1 x 3''" parse_int64
        "[parse_int64, parse_int64, parse_int64]", THEN conjunct2, THEN conjunct2, rule_format, of 1
        "Error ''can not convert 'x' to a integer''"]
    by (simp add: fields_1_x_3 parse_int64_x quoted_def)
qed

text \<open>
  Claim C2 as the spec words it fails: "1" scanned into three slots has two fields
  missing, and the error names 2 values tried against 1 available, not the 3 requested.
\<close>

theorem scan_names_next_field_not_slots:
  "length (line_fields is_whitespace ''1'') < length [parse_string, parse_string, parse_string]
   \<and> scan is_whitespace ''1'' parse_string [parse_string, parse_string]
     = Inl (Error ''error while reading '1': tried to read 2 values, but there are only 1'')
   \<and> scan is_whitespace ''1'' parse_string [parse_string, parse_string]
     \<noteq> Inl (Error ''error while reading '1': tried to read 3 values, but there are only 1'')"
  by (simp add: line_fields.simps is_whitespace_def scan_def make_tokens_iterator_def
      tokens_iterator_next_def remove_prefix_def parse_string_def quoted_def fmt_nat.simps digit_char_def Let_def)

section \<open>The identifier codec: finding the next frame\<close>

lemma string_find_None_iff: "string_find hay needle = None \<longleftrightarrow> \<not> sublist needle hay"
proof (induction hay)
  case Nil
  then show ?case by simp
next
  case (Cons c cs)
  then show ?case by (simp add: sublist_Cons_right)
qed

lemma forward_eof: "rest f = [] \<Longrightarrow> forward f = (None, f)"
  by (subst forward.simps) (simp add: eof_def)

lemma forward_found:
  "sublist ''InChI='' line \<Longrightarrow>
   forward \<lparr>rest = (pos, line) # others, end_position = e\<rparr> = (Some pos, \<lparr>rest = others, end_position = e\<rparr>)"
  by (subst forward.simps)
     (simp add: eof_def readline_def tellpos_def string_find_None_iff)

lemma forward_skip:
  "\<not> sublist ''InChI='' line \<Longrightarrow>
   forward \<lparr>rest = (pos, line) # others, end_position = e\<rparr> = forward \<lparr>rest = others, end_position = e\<rparr>"
  by (subst forward.simps)
     (simp add: eof_def readline_def tellpos_def string_find_None_iff)

lemma forward_skips_prefix:
  "(\<forall>(p, l) \<in> set pre. \<not> sublist ''InChI='' l) \<Longrightarrow>
   forward \<lparr>rest = pre @ others, end_position = e\<rparr> = forward \<lparr>rest = others, end_position = e\<rparr>"
proof (induction pre)
  case Nil
  then show ?case by simp
next
  case (Cons a pre)
  obtain p l where a: "a = (p, l)" by (cases a)
  with Cons.prems have "\<not> sublist ''InChI='' l" by simp
  then show ?case using Cons a by (simp add: forward_skip)
qed

lemma forward_None_iff_aux:
  "fst (forward \<lparr>rest = ls, end_position = e\<rparr>) = None \<longleftrightarrow> (\<forall>(p, l) \<in> set ls. \<not> sublist ''InChI='' l)"
proof (induction ls)
  case Nil
  then show ?case by (simp add: forward_eof)
next
  case (Cons a ls)
  obtain p l where a: "a = (p, l)" by (cases a)
  show ?case
  proof (cases "sublist ''InChI='' l")
    case True
    then show ?thesis using a by (simp add: forward_found)
  next
    case False
    then show ?thesis using a Cons by (simp add: forward_skip)
  qed
qed

lemma forward_None_eof_aux:
  "fst (forward \<lparr>rest = ls, end_position = e\<rparr>) = None \<Longrightarrow> eof (snd (forward \<lparr>rest = ls, end_position = e\<rparr>))"
proof (induction ls)
  case Nil
  then show ?case by (simp add: forward_eof eof_def)
next
  case (Cons a ls)
  obtain p l where a: "a = (p, l)" by (cases a)
  show ?case
  proof (cases "sublist ''InChI='' l")
    case True
    then show ?thesis using a Cons.prems by (simp add: forward_found)
  next
    case False
    then show ?thesis using a Cons by (simp add: forward_skip)
  qed
qed

text \<open>
  Claim C10. \<open>forward()\<close> returns the position of the next line that contains
  \<open>InChI=\<close> and leaves the file just behind that line, whatever lines without
  \<open>InChI=\<close> come before it; it returns no position exactly when no line that is left
  contains \<open>InChI=\<close>, and then the file is at its end.
\<close>

theorem forward_next_identifier:
  "((\<forall>(p, l) \<in> set pre. \<not> sublist ''InChI='' l) \<and> sublist ''InChI='' line
      \<longrightarrow> forward \<lparr>rest = pre @ (pos, line) # others, end_position = e\<rparr>
            = (Some pos, \<lparr>rest = others, end_position = e\<rparr>))
   \<and> (fst (forward f) = None \<longleftrightarrow> (\<forall>(p, l) \<in> set (rest f). \<not> sublist ''InChI='' l))
   \<and> (fst (forward f) = None \<longrightarrow> eof (snd (forward f)))"
proof (intro conjI impI)
  assume "(\<forall>(p, l) \<in> set pre. \<not> sublist ''InChI='' l) \<and> sublist ''InChI='' line"
  then show "forward \<lparr>rest = pre @ (pos, line) # others, end_position = e\<rparr>
            = (Some pos, \<lparr>rest = others, end_position = e\<rparr>)"
    by (simp add: forward_skips_prefix forward_found)
next
  show "fst (forward f) = None \<longleftrightarrow> (\<forall>(p, l) \<in> set (rest f). \<not> sublist ''InChI='' l)"
    by (cases f) (simp add: forward_None_iff_aux)
next
  assume "fst (forward f) = None"
  then show "eof (snd (forward f))"
    by (cases f) (simp add: forward_None_eof_aux)
qed

text \<open>
  A file of two frames with a line of another kind in front: the first call skips that
  line and stops at the first identifier, and a call on the last two lines (auxiliary
  information, and the empty line read at the end) finds nothing.
\<close>

theorem forward_next_identifier_witness:
  "forward \<lparr>rest = [(0, ''# water''), (8, ''InChI=1S/H2O/h1H2''), (26, ''AuxInfo=1/0''),
                    (38, ''InChI=1S/CH4/h1H4''), (56, ''AuxInfo=1/0''), (68, '''')],
            end_position = 68\<rparr>
     = (Some 8, \<lparr>rest = [(26, ''AuxInfo=1/0''), (38, ''InChI=1S/CH4/h1H4''),
                           (56, ''AuxInfo=1/0''), (68, '''')], end_position = 68\<rparr>)
   \<and> fst (forward \<lparr>rest = [(56, ''AuxInfo=1/0''), (68, '''')], end_position = 68\<rparr>) = None
   \<and> eof (snd (forward \<lparr>rest = [(56, ''AuxInfo=1/0''), (68, '''')], end_position = 68\<rparr>))"
proof -
  have c1: "\<not> sublist ''InChI='' ''# water''" and c2: "sublist ''InChI='' ''InChI=1S/H2O/h1H2''"
    and c3: "\<not> sublist ''InChI='' ''AuxInfo=1/0''" and c4: "\<not> sublist ''InChI='' ''''"
    by (simp_all add: sublist_code)
  note t = forward_next_identifier
  have a: "forward \<lparr>rest = [(0, ''# water'')] @ (8, ''InChI=1S/H2O/h1H2'') #
                [(26, ''AuxInfo=1/0''), (38, ''InChI=1S/CH4/h1H4''), (56, ''AuxInfo=1/0''), (68, '''')],
            end_position = 68\<rparr>
     = (Some 8, \<lparr>rest = [(26, ''AuxInfo=1/0''), (38, ''InChI=1S/CH4/h1H4''),
                           (56, ''AuxInfo=1/0''), (68, '''')], end_position = 68\<rparr>)"
    using t [THEN conjunct1, of "[(0, ''# water'')]" "''InChI=1S/H2O/h1H2''"] c1 c2 by simp
  have b: "fst (forward \<lparr>rest = [(56, ''AuxInfo=1/0''), (68, '''')], end_position = 68\<rparr>) = None"
    using t [THEN conjunct2, THEN conjunct1,
        of "\<lparr>rest = [(56, ''AuxInfo=1/0''), (68, '''')], end_position = 68\<rparr>"] c3 c4 by simp
  have c: "eof (snd (forward \<lparr>rest = [(56, ''AuxInfo=1/0''), (68, '''')], end_position = 68\<rparr>))"
    using t [THEN conjunct2, THEN conjunct2,
        of "\<lparr>rest = [(56, ''AuxInfo=1/0''), (68, '''')], end_position = 68\<rparr>"] b by simp
  from a b c show ?thesis by simp
qed

section \<open>The identifier codec: reading\<close>

lemma get_atom_fields:
  "mass (get_atom pt tk a) =
     (if IXA_MOL_GetAtomMass tk a \<noteq> IXA_ATOM_NATURAL_MASS then of_int (IXA_MOL_GetAtomMass tk a)
      else mass (new_Atom pt (IXA_MOL_GetAtomElement tk a)))"
  "charge (get_atom pt tk a) =
     (if IXA_MOL_GetAtomCharge tk a \<noteq> 0 then of_int (IXA_MOL_GetAtomCharge tk a)
      else charge (new_Atom pt (IXA_MOL_GetAtomElement tk a)))"
  "element (get_atom pt tk a) = IXA_MOL_GetAtomElement tk a"
  by (simp_all add: get_atom_def Let_def set_mass_def set_charge_def set_property_def new_Atom_def)

lemma get_atom_properties:
  "properties (get_atom pt tk a) =
     (\<lambda>name.
        if name = ''tritium_count'' \<and> IXA_MOL_GetAtomHydrogens tk a 3 \<noteq> 0
        then Some (PROPERTY_DOUBLE (of_int (IXA_MOL_GetAtomHydrogens tk a 3)))
        else if name = ''deuterium_count'' \<and> IXA_MOL_GetAtomHydrogens tk a 2 \<noteq> 0
        then Some (PROPERTY_DOUBLE (of_int (IXA_MOL_GetAtomHydrogens tk a 2)))
        else if name = ''hydrogen_count'' \<and> IXA_MOL_GetAtomHydrogens tk a 1 \<noteq> 0
        then Some (PROPERTY_DOUBLE (of_int (IXA_MOL_GetAtomHydrogens tk a 1)))
        else if name = ''radial'' \<and> IXA_MOL_GetAtomRadical tk a \<noteq> IXA_ATOM_RADICAL_NONE
        then Some (PROPERTY_DOUBLE (of_int (radical_value (IXA_MOL_GetAtomRadical tk a))))
        else None)"
  by (rule ext) (simp add: get_atom_def Let_def set_mass_def set_charge_def set_property_def new_Atom_def)

lemma read_atoms_appends:
  "read_atoms pt tk i (w, frame) = Inr (w', frame') \<Longrightarrow>
   atoms frame' = atoms frame
      @ map (\<lambda>j. get_atom pt tk (IXA_MOL_GetAtomId tk j)) [i..IXA_MOL_GetNumAtoms tk - 1]"
proof (induction pt tk i "(w, frame)" arbitrary: w frame rule: read_atoms.induct)
  case (1 pt tk i w frame)
  from "1.prems" obtain w1 where c: "check_for_errors tk w = Inr w1"
    by (subst (asm) read_atoms.simps)
       (auto simp: atom_count_def checked_def and_then_def split: sum.splits)
  show ?case
  proof (cases "i < IXA_MOL_GetNumAtoms tk")
    case False
    with "1.prems" c show ?thesis
      by (subst (asm) read_atoms.simps)
         (auto simp: atom_count_def checked_def and_then_def split: sum.splits)
  next
    case True
    from "1.prems" c True obtain w2 w3 where
      c2: "check_for_errors tk w1 = Inr w2" and c3: "check_for_errors tk w2 = Inr w3"
      and r: "read_atoms pt tk (i + 1)
                (w3, add_atom (get_atom pt tk (IXA_MOL_GetAtomId tk i))
                       (IXA_MOL_GetAtomX tk (IXA_MOL_GetAtomId tk i),
                        IXA_MOL_GetAtomY tk (IXA_MOL_GetAtomId tk i),
                        IXA_MOL_GetAtomZ tk (IXA_MOL_GetAtomId tk i)) frame) = Inr (w', frame')"
      by (subst (asm) read_atoms.simps)
         (auto simp: atom_count_def atom_def atom_position_def checked_def and_then_def
               split: sum.splits)
    have a1: "atom_count tk w = Inr (IXA_MOL_GetNumAtoms tk, w1)"
      using c by (simp add: atom_count_def checked_def and_then_def)
    have a2: "atom tk i w1 = Inr (IXA_MOL_GetAtomId tk i, w2)"
      using c2 by (simp add: atom_def checked_def and_then_def)
    have a3: "atom_position tk (IXA_MOL_GetAtomId tk i) w2 =
        Inr ((IXA_MOL_GetAtomX tk (IXA_MOL_GetAtomId tk i),
              IXA_MOL_GetAtomY tk (IXA_MOL_GetAtomId tk i),
              IXA_MOL_GetAtomZ tk (IXA_MOL_GetAtomId tk i)), w3)"
      using c3 by (simp add: atom_position_def checked_def and_then_def)
    have up: "[i..IXA_MOL_GetNumAtoms tk - 1] = i # [i + 1..IXA_MOL_GetNumAtoms tk - 1]"
      using True by (simp add: upto_rec1)
    from "1.hyps" [OF a1 refl True a2 refl a3 refl r] show ?thesis
      by (simp add: add_atom_def up)
  qed
qed

text \<open>
  Claim C7. The atom that \<open>get_atom\<close> builds keeps the natural mass of its element
  unless the toolkit gives a mass other than \<open>IXA_ATOM_NATURAL_MASS\<close>, and the charge 0
  unless the toolkit gives another; it has a property for the radical exactly when the
  toolkit gives a radical state, and one for each of the three hydrogen isotopes exactly
  when the count is not 0; it has no other property. When the first loop of \<open>read_next\<close>
  ends, these are the atoms it has added to the frame, in the order of their indices.
\<close>

theorem get_atom_sets_only_non_defaults:
  "mass (get_atom pt tk a) =
     (if IXA_MOL_GetAtomMass tk a \<noteq> IXA_ATOM_NATURAL_MASS then of_int (IXA_MOL_GetAtomMass tk a)
      else mass (new_Atom pt (IXA_MOL_GetAtomElement tk a)))
   \<and> charge (get_atom pt tk a) =
     (if IXA_MOL_GetAtomCharge tk a \<noteq> 0 then of_int (IXA_MOL_GetAtomCharge tk a)
      else charge (new_Atom pt (IXA_MOL_GetAtomElement tk a)))
   \<and> properties (get_atom pt tk a) ''radial'' =
     (if IXA_MOL_GetAtomRadical tk a \<noteq> IXA_ATOM_RADICAL_NONE
      then Some (PROPERTY_DOUBLE (of_int (radical_value (IXA_MOL_GetAtomRadical tk a)))) else None)
   \<and> properties (get_atom pt tk a) ''hydrogen_count'' =
     (if IXA_MOL_GetAtomHydrogens tk a 1 \<noteq> 0
      then Some (PROPERTY_DOUBLE (of_int (IXA_MOL_GetAtomHydrogens tk a 1))) else None)
   \<and> properties (get_atom pt tk a) ''deuterium_count'' =
     (if IXA_MOL_GetAtomHydrogens tk a 2 \<noteq> 0
      then Some (PROPERTY_DOUBLE (of_int (IXA_MOL_GetAtomHydrogens tk a 2))) else None)
   \<and> properties (get_atom pt tk a) ''tritium_count'' =
     (if IXA_MOL_GetAtomHydrogens tk a 3 \<noteq> 0
      then Some (PROPERTY_DOUBLE (of_int (IXA_MOL_GetAtomHydrogens tk a 3))) else None)
   \<and> dom (properties (get_atom pt tk a))
       \<subseteq> {''radial'', ''hydrogen_count'', ''deuterium_count'', ''tritium_count''}
   \<and> (read_atoms pt tk 0 (w, frame) = Inr (w', frame') \<longrightarrow>
        atoms frame' = atoms frame
          @ map (\<lambda>j. get_atom pt tk (IXA_MOL_GetAtomId tk j)) [0..IXA_MOL_GetNumAtoms tk - 1])"
proof -
  have "dom (properties (get_atom pt tk a))
       \<subseteq> {''radial'', ''hydrogen_count'', ''deuterium_count'', ''tritium_count''}"
    by (auto simp: get_atom_properties dom_def split: if_splits)
  then show ?thesis
    using read_atoms_appends [of pt tk 0 w frame w' frame']
    by (simp add: get_atom_fields get_atom_properties)
qed

text \<open>
  The example: both atoms are read; the carbon has the mass 13, the charge \<open>-1\<close> and
  the single property \<open>deuterium_count\<close>, the hydrogen its natural mass, no charge and
  no property.
\<close>

lemma example_read_atoms:
  "read_atoms example_table example_toolkit 0
     (\<lparr>status_reads = 0, calls = [], warnings = []\<rparr>, empty_frame)
   = Inr (\<lparr>status_reads = 7, calls = [], warnings = []\<rparr>,
          \<lparr>atoms = [get_atom example_table example_toolkit (IXA_ATOMID 10),
                    get_atom example_table example_toolkit (IXA_ATOMID 11)],
            positions = [(0, 0, 0), (0, 0, 0)], bonds = [], bond_orders = []\<rparr>)"
  by (simp add: read_atoms.simps atom_count_def atom_def atom_position_def checked_def
      check_for_errors_def and_then_def example_toolkit_def empty_frame_def add_atom_def)

theorem get_atom_sets_only_non_defaults_witness:
  "(\<exists>w' frame'.
      read_atoms example_table example_toolkit 0
        (\<lparr>status_reads = 0, calls = [], warnings = []\<rparr>, empty_frame) = Inr (w', frame')
      \<and> map mass (atoms frame') = [13, 1008 / 1000]
      \<and> map charge (atoms frame') = [- 1, 0]
      \<and> map (\<lambda>a. properties a ''deuterium_count'') (atoms frame')
          = [Some (PROPERTY_DOUBLE 1), None]
      \<and> map (\<lambda>a. properties a ''radial'') (atoms frame') = [None, None]
      \<and> map (\<lambda>a. properties a ''hydrogen_count'') (atoms frame') = [None, None]
      \<and> map (\<lambda>a. properties a ''tritium_count'') (atoms frame') = [None, None])"
proof -
  note t = get_atom_sets_only_non_defaults [of example_table example_toolkit]
  from example_read_atoms obtain w' frame' where
    r: "read_atoms example_table example_toolkit 0
          (\<lparr>status_reads = 0, calls = [], warnings = []\<rparr>, empty_frame) = Inr (w', frame')"
    by blast
  have "atoms frame' = atoms empty_frame
          @ map (\<lambda>j. get_atom example_table example_toolkit (IXA_MOL_GetAtomId example_toolkit j))
              [0..IXA_MOL_GetNumAtoms example_toolkit - 1]"
    using t [of "IXA_ATOMID 10" "\<lparr>status_reads = 0, calls = [], warnings = []\<rparr>" empty_frame w' frame']
      r by blast
  moreover have "[0..IXA_MOL_GetNumAtoms example_toolkit - 1] = [0, 1]"
    by (simp add: example_toolkit_def upto_rec1)
  moreover have "IXA_MOL_GetAtomId example_toolkit 0 = IXA_ATOMID 10"
    "IXA_MOL_GetAtomId example_toolkit 1 = IXA_ATOMID 11"
    by (simp_all add: example_toolkit_def)
  ultimately have a: "atoms frame' = [get_atom example_table example_toolkit (IXA_ATOMID 10),
                 get_atom example_table example_toolkit (IXA_ATOMID 11)]"
    by (simp add: empty_frame_def)
  have g: "IXA_MOL_GetAtomMass example_toolkit (IXA_ATOMID 10) = 13"
    "IXA_MOL_GetAtomMass example_toolkit (IXA_ATOMID 11) = 0"
    "IXA_MOL_GetAtomCharge example_toolkit (IXA_ATOMID 10) = - 1"
    "IXA_MOL_GetAtomCharge example_toolkit (IXA_ATOMID 11) = 0"
    "IXA_MOL_GetAtomRadical example_toolkit = (\<lambda>a. IXA_ATOM_RADICAL_NONE)"
    "IXA_MOL_GetAtomHydrogens example_toolkit (IXA_ATOMID 10) = (\<lambda>m. if m = 2 then 1 else 0)"
    "IXA_MOL_GetAtomHydrogens example_toolkit (IXA_ATOMID 11) = (\<lambda>m. 0)"
    "IXA_MOL_GetAtomElement example_toolkit (IXA_ATOMID 11) = ''H''"
    by (simp_all add: example_toolkit_def)
  have "map mass (atoms frame') = [13, 1008 / 1000]
      \<and> map charge (atoms frame') = [- 1, 0]
      \<and> map (\<lambda>a. properties a ''deuterium_count'') (atoms frame') = [Some (PROPERTY_DOUBLE 1), None]
      \<and> map (\<lambda>a. properties a ''radial'') (atoms frame') = [None, None]
      \<and> map (\<lambda>a. properties a ''hydrogen_count'') (atoms frame') = [None, None]
      \<and> map (\<lambda>a. properties a ''tritium_count'') (atoms frame') = [None, None]"
    using t [of "IXA_ATOMID 10"] t [of "IXA_ATOMID 11"]
    by (simp add: a g IXA_ATOM_NATURAL_MASS_def new_Atom_def example_table_def)
  with r show ?thesis
    by (intro exI [of _ w'] exI [of _ frame']) simp
qed







section \<open>The identifier codec: writing\<close>

lemma check_for_errors_effect:
  assumes "check_for_errors tk w = Inr w'"
  shows "calls w' = calls w" and "prefix (warnings w) (warnings w')"
    and "status_reads w' = Suc (status_reads w)"
  using assms by (auto simp: check_for_errors_def Let_def split: if_splits)

lemma checked_effect:
  assumes "checked tk x w = Inr (y, w')"
  shows "y = x" and "calls w' = calls w" and "prefix (warnings w) (warnings w')"
  using assms check_for_errors_effect [of tk w w']
  by (auto simp: checked_def and_then_def split: sum.splits)

lemma atom_effect:
  assumes "atom tk i w = Inr (a, w')"
  shows "a = IXA_MOL_GetAtomId tk i" and "calls w' = calls w" and "prefix (warnings w) (warnings w')"
  using assms checked_effect [of tk "IXA_MOL_GetAtomId tk i" w a w'] by (auto simp: atom_def)

lemma and_then_Inr:
  "and_then m f = Inr y \<longleftrightarrow> (\<exists>x. m = Inr x \<and> f x = Inr y)"
  by (cases m) (simp_all add: and_then_def)

lemma call_simps [simp]:
  "calls (call c w) = calls w @ [c]" "warnings (call c w) = warnings w"
  "status_reads (call c w) = status_reads w"
  by (simp_all add: call_def)

lemma create_stereo_tetrahedron_effect:
  assumes "create_stereo_tetrahedron tk center a parity w = Inr (st, w')"
  defines "c0 \<equiv> IXA_MOL_GetAtomId tk (to_int center)"
    and "v1 \<equiv> IXA_MOL_GetAtomId tk (to_int (a ! 0))"
    and "v2 \<equiv> IXA_MOL_GetAtomId tk (to_int (a ! 1))"
    and "v3 \<equiv> IXA_MOL_GetAtomId tk (to_int (a ! 2))"
    and "v4 \<equiv> (if 4 \<le> length a then IXA_MOL_GetAtomId tk (to_int (a ! 3)) else IXA_ATOMID_IMPLICIT_H)"
  defines "swapped \<equiv> (length a = 3 \<or> IXA_MOL_GetAtomAtomicNumber tk v4 = 1)"
  shows "3 \<le> length a"
    and "\<exists>p. calls w' = calls w @ [CreateStereoTetrahedron c0 (if swapped then v4 else v1) v2 v3
                                     (if swapped then v1 else v4), SetStereoParity st p]"
    and "prefix (warnings w) (warnings w')"
proof -
  show len: "3 \<le> length a"
    using assms(1) by (auto simp: create_stereo_tetrahedron_def split: if_splits)
  from assms(1) len obtain x0 x1 x2 x3 x4 w0 w1 w2 w3 w4 w7 where
    a0: "atom tk (to_int center) w = Inr (x0, w0)"
    and a1: "atom tk (to_int (a ! 0)) w0 = Inr (x1, w1)"
    and a2: "atom tk (to_int (a ! 1)) w1 = Inr (x2, w2)"
    and a3: "atom tk (to_int (a ! 2)) w2 = Inr (x3, w3)"
    and a4: "(if 4 \<le> length a then atom tk (to_int (a ! 3)) w3
              else Inr (IXA_ATOMID_IMPLICIT_H, w3)) = Inr (x4, w4)"
    and fin: "check_for_errors tk
        (let swapped = (length a = 3 \<or> IXA_MOL_GetAtomAtomicNumber tk x4 = 1);
             first = (if swapped then x4 else x1);
             fourth = (if swapped then x1 else x4);
             st = IXA_MOL_CreateStereoTetrahedron tk (calls w4);
             w5 = call (CreateStereoTetrahedron x0 first x2 x3 fourth) w4
         in (if parity = ''odd'' then call (SetStereoParity st IXA_STEREO_PARITY_ODD) w5
             else if parity = ''even'' then call (SetStereoParity st IXA_STEREO_PARITY_EVEN) w5
             else if parity = ''none'' then call (SetStereoParity st IXA_STEREO_PARITY_NONE) w5
             else call (SetStereoParity st IXA_STEREO_PARITY_UNKNOWN) w5)) = Inr w7"
    and res: "st = IXA_MOL_CreateStereoTetrahedron tk (calls w4)" "w' = w7"
    by (auto simp: create_stereo_tetrahedron_def and_then_Inr Let_def)
  have x: "x0 = c0" "x1 = v1" "x2 = v2" "x3 = v3"
    using atom_effect(1) [OF a0] atom_effect(1) [OF a1] atom_effect(1) [OF a2] atom_effect(1) [OF a3]
    by (simp_all add: c0_def v1_def v2_def v3_def)
  have x4: "x4 = v4" and c4: "calls w4 = calls w3" and p4: "prefix (warnings w3) (warnings w4)"
    using a4 atom_effect [of tk "to_int (a ! 3)" w3 x4 w4]
    by (auto simp: v4_def split: if_splits)
  have c: "calls w4 = calls w"
    using c4 atom_effect(2) [OF a0] atom_effect(2) [OF a1] atom_effect(2) [OF a2] atom_effect(2) [OF a3]
    by simp
  have p: "prefix (warnings w) (warnings w4)"
    using p4 atom_effect(3) [OF a0] atom_effect(3) [OF a1] atom_effect(3) [OF a2] atom_effect(3) [OF a3]
    by (meson prefix_order.trans)
  show "\<exists>p. calls w' = calls w @ [CreateStereoTetrahedron c0 (if swapped then v4 else v1) v2 v3
                                     (if swapped then v1 else v4), SetStereoParity st p]"
    using check_for_errors_effect(1) [OF fin] res x x4 c
    by (auto simp: Let_def swapped_def)
  show "prefix (warnings w) (warnings w')"
    using check_for_errors_effect(2) [OF fin] res p
    by (auto simp: Let_def split: if_splits intro: prefix_order.trans)
qed

text \<open>
  Claim C8. When \<open>create_stereo_tetrahedron\<close> returns, the neighbour list has at least
  three entries and the calls it has added to the log are the creation of a
  stereocentre and the setting of its parity. With exactly three neighbours the vertices
  handed over are the implicit hydrogen, the second and third neighbour, and the first
  neighbour; with a fourth neighbour of atomic number 1 they are the fourth, second,
  third and first neighbour; otherwise they are the four neighbours in their order.
\<close>

theorem stereo_tetrahedron_hydrogen_first:
  assumes "create_stereo_tetrahedron tk center a parity w = Inr (st, w')"
  shows "3 \<le> length a
    \<and> (length a = 3 \<longrightarrow>
         (\<exists>p. calls w' = calls w @
            [CreateStereoTetrahedron (IXA_MOL_GetAtomId tk (to_int center))
               IXA_ATOMID_IMPLICIT_H
               (IXA_MOL_GetAtomId tk (to_int (a ! 1)))
               (IXA_MOL_GetAtomId tk (to_int (a ! 2)))
               (IXA_MOL_GetAtomId tk (to_int (a ! 0))),
             SetStereoParity st p]))
    \<and> (4 \<le> length a \<and> IXA_MOL_GetAtomAtomicNumber tk (IXA_MOL_GetAtomId tk (to_int (a ! 3))) = 1 \<longrightarrow>
         (\<exists>p. calls w' = calls w @
            [CreateStereoTetrahedron (IXA_MOL_GetAtomId tk (to_int center))
               (IXA_MOL_GetAtomId tk (to_int (a ! 3)))
               (IXA_MOL_GetAtomId tk (to_int (a ! 1)))
               (IXA_MOL_GetAtomId tk (to_int (a ! 2)))
               (IXA_MOL_GetAtomId tk (to_int (a ! 0))),
             SetStereoParity st p]))
    \<and> (4 \<le> length a \<and> IXA_MOL_GetAtomAtomicNumber tk (IXA_MOL_GetAtomId tk (to_int (a ! 3))) \<noteq> 1 \<longrightarrow>
         (\<exists>p. calls w' = calls w @
            [CreateStereoTetrahedron (IXA_MOL_GetAtomId tk (to_int center))
               (IXA_MOL_GetAtomId tk (to_int (a ! 0)))
               (IXA_MOL_GetAtomId tk (to_int (a ! 1)))
               (IXA_MOL_GetAtomId tk (to_int (a ! 2)))
               (IXA_MOL_GetAtomId tk (to_int (a ! 3))),
             SetStereoParity st p]))"
  using create_stereo_tetrahedron_effect(1,2) [OF assms]
  by (auto simp del: One_nat_def)

text \<open>
  The three cases in the example toolkit, where atom \<open>i\<close> has the identifier \<open>10 + i\<close>
  and atom 0 is the only one that is not a hydrogen.
\<close>

lemma example_stereo:
  "create_stereo_tetrahedron example_toolkit 0 [2, 3, 4] ''even''
     \<lparr>status_reads = 0, calls = [], warnings = []\<rparr>
   = Inr (IXA_STEREOID 0,
          \<lparr>status_reads = 5,
            calls = [CreateStereoTetrahedron (IXA_ATOMID 10) IXA_ATOMID_IMPLICIT_H (IXA_ATOMID 13)
                       (IXA_ATOMID 14) (IXA_ATOMID 12),
                     SetStereoParity (IXA_STEREOID 0) IXA_STEREO_PARITY_EVEN],
            warnings = []\<rparr>)"
  "create_stereo_tetrahedron example_toolkit 0 [2, 3, 4, 5] ''odd''
     \<lparr>status_reads = 0, calls = [], warnings = []\<rparr>
   = Inr (IXA_STEREOID 0,
          \<lparr>status_reads = 6,
            calls = [CreateStereoTetrahedron (IXA_ATOMID 10) (IXA_ATOMID 15) (IXA_ATOMID 13)
                       (IXA_ATOMID 14) (IXA_ATOMID 12),
                     SetStereoParity (IXA_STEREOID 0) IXA_STEREO_PARITY_ODD],
            warnings = []\<rparr>)"
  "create_stereo_tetrahedron example_toolkit 6 [2, 3, 4, 0] []
     \<lparr>status_reads = 0, calls = [], warnings = []\<rparr>
   = Inr (IXA_STEREOID 0,
          \<lparr>status_reads = 6,
            calls = [CreateStereoTetrahedron (IXA_ATOMID 16) (IXA_ATOMID 12) (IXA_ATOMID 13)
                       (IXA_ATOMID 14) (IXA_ATOMID 10),
                     SetStereoParity (IXA_STEREOID 0) IXA_STEREO_PARITY_UNKNOWN],
            warnings = []\<rparr>)"
  by (simp_all add: create_stereo_tetrahedron_def atom_def checked_def check_for_errors_def
      and_then_def example_toolkit_def to_int_def call_def Let_def)

theorem stereo_tetrahedron_hydrogen_first_witness:
  "(\<exists>st w' p.
      create_stereo_tetrahedron example_toolkit 0 [2, 3, 4] ''even''
        \<lparr>status_reads = 0, calls = [], warnings = []\<rparr> = Inr (st, w')
      \<and> calls w' = [CreateStereoTetrahedron (IXA_ATOMID 10) IXA_ATOMID_IMPLICIT_H (IXA_ATOMID 13)
                      (IXA_ATOMID 14) (IXA_ATOMID 12), SetStereoParity st p])
   \<and> (\<exists>st w' p.
      create_stereo_tetrahedron example_toolkit 0 [2, 3, 4, 5] ''odd''
        \<lparr>status_reads = 0, calls = [], warnings = []\<rparr> = Inr (st, w')
      \<and> calls w' = [CreateStereoTetrahedron (IXA_ATOMID 10) (IXA_ATOMID 15) (IXA_ATOMID 13)
                      (IXA_ATOMID 14) (IXA_ATOMID 12), SetStereoParity st p])
   \<and> (\<exists>st w' p.
      create_stereo_tetrahedron example_toolkit 6 [2, 3, 4, 0] []
        \<lparr>status_reads = 0, calls = [], warnings = []\<rparr> = Inr (st, w')
      \<and> calls w' = [CreateStereoTetrahedron (IXA_ATOMID 16) (IXA_ATOMID 12) (IXA_ATOMID 13)
                      (IXA_ATOMID 14) (IXA_ATOMID 10), SetStereoParity st p])"
proof -
  have n: "IXA_MOL_GetAtomId example_toolkit = (\<lambda>i. IXA_ATOMID (nat (i + 10)))"
    "IXA_MOL_GetAtomAtomicNumber example_toolkit = (\<lambda>a. if a = IXA_ATOMID 10 then 6 else 1)"
    by (simp_all add: example_toolkit_def)
  have i: "to_int 0 = 0" "to_int 2 = 2" "to_int 3 = 3" "to_int 4 = 4" "to_int 5 = 5" "to_int 6 = 6"
    by (simp_all add: to_int_def)
  show ?thesis
    using stereo_tetrahedron_hydrogen_first [OF example_stereo(1)]
      stereo_tetrahedron_hydrogen_first [OF example_stereo(2)]
      stereo_tetrahedron_hydrogen_first [OF example_stereo(3)]
    by (simp add: example_stereo n i)
qed


lemma for_each_append:
  "for_each (xs @ ys) body s = and_then (for_each xs body s) (for_each ys body)"
  by (induction xs arbitrary: s) (auto simp: and_then_def split: sum.splits)

lemma for_each_related:
  assumes step: "\<And>i s s'. i \<in> set xs \<Longrightarrow> body i s = Inr s' \<Longrightarrow> R s s'"
    and refl: "\<And>s. R s s"
    and trans: "\<And>a b c. R a b \<Longrightarrow> R b c \<Longrightarrow> R a c"
    and run: "for_each xs body s = Inr s'"
  shows "R s s'"
  using step run
proof (induction xs arbitrary: s)
  case Nil
  then show ?case using refl by simp
next
  case (Cons i xs)
  from Cons.prems(2) obtain s1 where 1: "body i s = Inr s1" and 2: "for_each xs body s1 = Inr s'"
    by (auto simp: and_then_Inr)
  have "R s s1" using Cons.prems(1) [of i s s1] 1 by simp
  moreover have "R s1 s'"
  proof (rule Cons.IH [OF _ 2])
    fix j a b assume "j \<in> set xs" "body j a = Inr b"
    then show "R a b" using Cons.prems(1) [of j a b] by simp
  qed
  ultimately show ?case using trans by blast
qed

lemma quiet_step_refl: "quiet_step w w"
  by (simp add: quiet_step_def)

lemma quiet_step_trans: "quiet_step a b \<Longrightarrow> quiet_step b c \<Longrightarrow> quiet_step a c"
  by (auto simp: quiet_step_def intro: prefix_order.trans)

lemma create_atom_quiet:
  assumes "create_atom pt tk a pos w = Inr w'"
  shows "quiet_step w w'"
proof -
  from assms obtain w8 where c: "check_for_errors tk w8 = Inr w'"
    and s: "stereo_calls w8 = stereo_calls w" and p: "warnings w8 = warnings w"
    by (auto simp: create_atom_def and_then_Inr Let_def stereo_calls_def
        split: option.splits)
  from check_for_errors_effect [OF c] s p show ?thesis
    by (simp add: quiet_step_def stereo_calls_def)
qed

lemma create_bond_quiet:
  assumes "create_bond tk bond order w = Inr w'"
  shows "quiet_step w w'"
proof -
  from assms obtain a1 a2 w1 w2 w4 where 1: "atom tk (to_int (fst bond)) w = Inr (a1, w1)"
    and 2: "atom tk (to_int (snd bond)) w1 = Inr (a2, w2)"
    and c: "check_for_errors tk w4 = Inr w'"
    and s: "stereo_calls w4 = stereo_calls w2" and p: "warnings w4 = warnings w2"
    by (auto simp: create_bond_def and_then_Inr Let_def stereo_calls_def split: option.splits)
  from atom_effect [OF 1] atom_effect [OF 2] check_for_errors_effect [OF c] s p
  show ?thesis
    by (auto simp: quiet_step_def stereo_calls_def intro: prefix_order.trans)
qed

lemma write_atoms_quiet:
  "for_each xs (write_atom pt tk frame) w = Inr w' \<Longrightarrow> quiet_step w w'"
  by (rule for_each_related [where R = quiet_step and body = "write_atom pt tk frame"])
     (auto simp: write_atom_def quiet_step_refl split: if_splits
           intro: create_atom_quiet quiet_step_trans)

lemma write_bonds_quiet:
  "for_each xs (write_bond tk frame) w = Inr w' \<Longrightarrow> quiet_step w w'"
  by (rule for_each_related [where R = quiet_step and body = "write_bond tk frame"])
     (auto simp: write_bond_def quiet_step_refl split: if_splits
           intro: create_bond_quiet quiet_step_trans)

lemma new_wrapper_effect:
  "new_IXAMolWrapper tk = Inr w \<Longrightarrow> calls w = []"
  using check_for_errors_effect(1) [of tk "\<lparr>status_reads = 0, calls = [], warnings = []\<rparr>" w]
  by (simp add: new_IXAMolWrapper_def)

lemma is_zero_dimensions_iff:
  "is_zero_dimensions distance frame \<longleftrightarrow>
     frame_size frame = 0 \<or> frame_size frame = 1
     \<or> (\<forall>i. 1 \<le> i \<and> i < length (positions frame) \<longrightarrow> distance 0 i \<le> eps)"
  by (auto simp: is_zero_dimensions_def list_all_iff not_less)

text \<open>What the write has done before it comes to the stereocentres.\<close>

lemma write_next_stages:
  assumes "write_next pt tk distance frame = Inr (out, w)"
  obtains w0 w1 w2 where "new_IXAMolWrapper tk = Inr w0"
    and "for_each [0..<frame_size frame] (write_atom pt tk frame) w0 = Inr w1"
    and "for_each [0..<length (bonds frame)] (write_bond tk frame) w1 = Inr w2"
    and "(if is_zero_dimensions distance frame
          then and_then (make_adj_list frame) (\<lambda>adj_list.
                 for_each [0..<frame_size frame] (write_stereo tk frame adj_list) w2)
          else Inr w2) = Inr w"
    and "stereo_calls w2 = []"
proof -
  from assms obtain w0 w1 w2 where 0: "new_IXAMolWrapper tk = Inr w0"
    and 1: "for_each [0..<frame_size frame] (write_atom pt tk frame) w0 = Inr w1"
    and 2: "for_each [0..<length (bonds frame)] (write_bond tk frame) w1 = Inr w2"
    and 3: "(if is_zero_dimensions distance frame
          then and_then (make_adj_list frame) (\<lambda>adj_list.
                 for_each [0..<frame_size frame] (write_stereo tk frame adj_list) w2)
          else Inr w2) = Inr w"
    by (auto simp: write_next_def and_then_Inr Let_def)
  have "stereo_calls w0 = []"
    using new_wrapper_effect [OF 0] by (simp add: stereo_calls_def)
  then have "stereo_calls w2 = []"
    using write_atoms_quiet [OF 1] write_bonds_quiet [OF 2] by (simp add: quiet_step_def)
  with 0 1 2 3 show ?thesis using that by blast
qed

lemma stereo_only_if_zero_dimensions:
  assumes "write_next pt tk distance frame = Inr (out, w)" and "stereo_calls w \<noteq> []"
  shows "is_zero_dimensions distance frame"
proof (rule ccontr)
  assume n: "\<not> is_zero_dimensions distance frame"
  from assms(1) obtain w2 where "(if is_zero_dimensions distance frame
          then and_then (make_adj_list frame) (\<lambda>adj_list.
                 for_each [0..<frame_size frame] (write_stereo tk frame adj_list) w2)
          else Inr w2) = Inr w" and "stereo_calls w2 = []"
    by (rule write_next_stages)
  with n assms(2) show False by simp
qed


lemma push_neighbour_effect:
  "push_neighbour i j adj = Inr adj' \<Longrightarrow> length adj' = length adj \<and> i < length adj"
  by (auto simp: push_neighbour_def split: if_splits)

lemma add_to_adj_list_effect:
  assumes "add_to_adj_list b adj = Inr adj'"
  shows "length adj' = length adj" and "fst b < length adj" and "snd b < length adj"
proof -
  from assms obtain a1 where 1: "push_neighbour (fst b) (snd b) adj = Inr a1"
    and 2: "push_neighbour (snd b) (fst b) a1 = Inr adj'"
    by (auto simp: add_to_adj_list_def and_then_Inr)
  from push_neighbour_effect [OF 1] push_neighbour_effect [OF 2]
  show "length adj' = length adj" and "fst b < length adj" and "snd b < length adj"
    by simp_all
qed

lemma adj_list_bounds:
  "for_each bs add_to_adj_list adj = Inr adj' \<Longrightarrow>
   length adj' = length adj \<and> (\<forall>b \<in> set bs. fst b < length adj \<and> snd b < length adj)"
proof (induction bs arbitrary: adj)
  case Nil
  then show ?case by simp
next
  case (Cons b bs)
  from Cons.prems obtain a1 where 1: "add_to_adj_list b adj = Inr a1"
    and 2: "for_each bs add_to_adj_list a1 = Inr adj'"
    by (auto simp: and_then_Inr)
  from add_to_adj_list_effect [OF 1] Cons.IH [OF 2] show ?case by simp
qed

lemma distinct_all_equal:
  "distinct bs \<Longrightarrow> \<forall>b \<in> set bs. b = x \<Longrightarrow> bs = [] \<or> bs = [x]"
proof (cases bs)
  case Nil
  then show ?thesis by simp
next
  case (Cons b bs')
  assume d: "distinct bs" and e: "\<forall>b \<in> set bs. b = x"
  have "bs' = []"
  proof (cases bs')
    case Nil
    then show ?thesis .
  next
    case (Cons c cs)
    with d e \<open>bs = b # bs'\<close> show ?thesis by auto
  qed
  with e Cons show ?thesis by simp
qed

lemma single_atom_degree:
  assumes "frame_size frame = 1" and "distinct (bonds frame)" and "make_adj_list frame = Inr adj"
  shows "length (adj ! 0) \<le> 2"
proof -
  have run: "for_each (bonds frame) add_to_adj_list [[]] = Inr adj"
    using assms(1,3) by (simp add: make_adj_list_def)
  from adj_list_bounds [OF run] have "\<forall>b \<in> set (bonds frame). b = (0, 0)"
    by (auto simp: prod_eq_iff)
  from distinct_all_equal [OF assms(2) this]
  have "bonds frame = [] \<or> bonds frame = [(0, 0)]" .
  then show ?thesis
    using run by (auto simp: add_to_adj_list_def push_neighbour_def and_then_def)
qed

lemma write_stereo_warns:
  "prefix ''tetrahedron'' (chirality_of frame i) \<Longrightarrow> length (adj ! i) \<le> 2 \<Longrightarrow>
   write_stereo tk frame adj i w = Inr (w\<lparr>warnings := warnings w @ [fewer_bonds_warning]\<rparr>)"
  by (simp add: write_stereo_def)

lemma write_stereo_few_neighbours:
  "length (adj ! i) \<le> 2 \<Longrightarrow>
   \<exists>ws. write_stereo tk frame adj i w = Inr (w\<lparr>warnings := warnings w @ ws\<rparr>)"
proof (cases "prefix ''tetrahedron'' (chirality_of frame i)")
  case True
  assume "length (adj ! i) \<le> 2"
  from write_stereo_warns [OF True this] show ?thesis by blast
next
  case False
  then have "write_stereo tk frame adj i w = Inr (w\<lparr>warnings := warnings w @ []\<rparr>)"
    by (simp add: write_stereo_def)
  then show ?thesis by blast
qed

lemma no_stereo_small_frame:
  assumes "frame_size frame \<le> 1" and "distinct (bonds frame)" and "make_adj_list frame = Inr adj"
  shows "\<exists>ws. for_each [0..<frame_size frame] (write_stereo tk frame adj) w
              = Inr (w\<lparr>warnings := warnings w @ ws\<rparr>)"
proof (cases "frame_size frame = 0")
  case True
  then have "for_each [0..<frame_size frame] (write_stereo tk frame adj) w
              = Inr (w\<lparr>warnings := warnings w @ []\<rparr>)" by simp
  then show ?thesis by blast
next
  case False
  with assms(1) have one: "frame_size frame = 1" by simp
  from write_stereo_few_neighbours [OF single_atom_degree [OF one assms(2,3)]]
  obtain ws where "write_stereo tk frame adj 0 w = Inr (w\<lparr>warnings := warnings w @ ws\<rparr>)"
    by blast
  then have "for_each [0..<frame_size frame] (write_stereo tk frame adj) w
              = Inr (w\<lparr>warnings := warnings w @ ws\<rparr>)"
    using one by (simp add: and_then_def)
  then show ?thesis by blast
qed

lemma small_frame_zero_dimensions: "frame_size frame \<le> 1 \<Longrightarrow> is_zero_dimensions distance frame"
  by (auto simp: is_zero_dimensions_def)

lemma small_frame_no_stereo_calls:
  assumes "frame_size frame \<le> 1" and "distinct (bonds frame)"
    and "write_next pt tk distance frame = Inr (out, w)"
  shows "stereo_calls w = []"
proof -
  from assms(3) obtain w2 where r: "(if is_zero_dimensions distance frame
          then and_then (make_adj_list frame) (\<lambda>adj_list.
                 for_each [0..<frame_size frame] (write_stereo tk frame adj_list) w2)
          else Inr w2) = Inr w" and s: "stereo_calls w2 = []"
    by (rule write_next_stages)
  from r small_frame_zero_dimensions [OF assms(1)] obtain adj where
    a: "make_adj_list frame = Inr adj"
    and l: "for_each [0..<frame_size frame] (write_stereo tk frame adj) w2 = Inr w"
    by (auto simp: and_then_Inr)
  from no_stereo_small_frame [OF assms(1,2) a, of tk w2] l s show ?thesis
    by (auto simp: stereo_calls_def)
qed

lemma write_stereo_effect:
  assumes "write_stereo tk frame adj j w = Inr w'"
  shows "prefix (warnings w) (warnings w')"
    and "length (stereo_calls w') = length (stereo_calls w) + (if reaches_stereo frame adj j then 1 else 0)"
proof -
  show "prefix (warnings w) (warnings w')"
    using assms create_stereo_tetrahedron_effect(3)
    by (fastforce simp: write_stereo_def Let_def and_then_Inr split: if_splits)
  show "length (stereo_calls w') = length (stereo_calls w) + (if reaches_stereo frame adj j then 1 else 0)"
  proof (cases "reaches_stereo frame adj j")
    case False
    then show ?thesis
      using assms
      by (auto simp: write_stereo_def reaches_stereo_def Let_def stereo_calls_def split: if_splits)
  next
    case True
    with assms obtain parity st where
      "create_stereo_tetrahedron tk j (adj ! j) parity w = Inr (st, w')"
      by (auto simp: write_stereo_def reaches_stereo_def Let_def and_then_Inr)
    from create_stereo_tetrahedron_effect(2) [OF this] True show ?thesis
      by (auto simp: stereo_calls_def)
  qed
qed

lemma write_stereos_effect:
  "for_each xs (write_stereo tk frame adj) w = Inr w' \<Longrightarrow>
   prefix (warnings w) (warnings w')
   \<and> length (stereo_calls w') = length (stereo_calls w) + length (filter (reaches_stereo frame adj) xs)"
proof (induction xs arbitrary: w)
  case Nil
  then show ?case by simp
next
  case (Cons j xs)
  from Cons.prems obtain w1 where 1: "write_stereo tk frame adj j w = Inr w1"
    and 2: "for_each xs (write_stereo tk frame adj) w1 = Inr w'"
    by (auto simp: and_then_Inr)
  from write_stereo_effect [OF 1] Cons.IH [OF 2] show ?case
    by (auto intro: prefix_order.trans)
qed

lemma write_stereos_warning:
  assumes "for_each [0..<n] (write_stereo tk frame adj) w = Inr w'" and "i < n"
    and "prefix ''tetrahedron'' (chirality_of frame i)" and "length (adj ! i) \<le> 2"
  shows "fewer_bonds_warning \<in> set (warnings w')"
proof -
  have "[0..<n] = [0..<i] @ i # [Suc i..<n]"
    using assms(2) by (metis less_imp_le_nat upt_add_eq_append upt_conv_Cons le0 le_add_diff_inverse)
  with assms(1) obtain w1 where
    "for_each (i # [Suc i..<n]) (write_stereo tk frame adj) w1 = Inr w'"
    by (auto simp: for_each_append and_then_Inr)
  then have "for_each [Suc i..<n] (write_stereo tk frame adj)
               (w1\<lparr>warnings := warnings w1 @ [fewer_bonds_warning]\<rparr>) = Inr w'"
    using write_stereo_warns [OF assms(3,4)] by (simp add: and_then_def)
  from write_stereos_effect [OF this] show ?thesis
    by (auto simp: prefix_def)
qed


text \<open>
  Claim C5. A write that returns with a stereocentre created in the toolkit was a write
  of a frame for which \<open>is_zero_dimensions\<close> holds, and for any other frame \<open>write_next\<close>
  is the writing of atoms and bonds alone. \<open>is_zero_dimensions\<close> holds exactly when the
  frame has no atom, or one, or when no atom is further than \<open>eps\<close> from atom 0. For a
  frame of at most one atom (whose bonds, as in every frame, are not repeated) the loop
  over the atoms gives warnings at most: it does not reach
  \<open>create_stereo_tetrahedron\<close>, and a write that returns has created no stereocentre.
\<close>

theorem stereo_only_when_zero_dimensions:
  "(write_next pt tk distance frame = Inr (out, w) \<and> stereo_calls w \<noteq> []
      \<longrightarrow> is_zero_dimensions distance frame)
   \<and> (\<not> is_zero_dimensions distance frame \<longrightarrow>
        write_next pt tk distance frame =
          and_then (new_IXAMolWrapper tk) (\<lambda>writer.
          and_then (for_each [0..<frame_size frame] (write_atom pt tk frame) writer) (\<lambda>writer.
          and_then (for_each [0..<length (bonds frame)] (write_bond tk frame) writer) (\<lambda>writer.
            Inr ([fst (get_strings tk writer) @ [CHR 0x0A], snd (get_strings tk writer) @ [CHR 0x0A]],
                 writer)))))
   \<and> (is_zero_dimensions distance frame \<longleftrightarrow>
        frame_size frame = 0 \<or> frame_size frame = 1
        \<or> (\<forall>i. 1 \<le> i \<and> i < length (positions frame) \<longrightarrow> distance 0 i \<le> eps))
   \<and> (frame_size frame \<le> 1 \<and> distinct (bonds frame) \<and> make_adj_list frame = Inr adj_list
      \<longrightarrow> (\<exists>ws. for_each [0..<frame_size frame] (write_stereo tk frame adj_list) w0
                  = Inr (w0\<lparr>warnings := warnings w0 @ ws\<rparr>)))
   \<and> (frame_size frame \<le> 1 \<and> distinct (bonds frame)
        \<and> write_next pt tk distance frame = Inr (out, w)
      \<longrightarrow> stereo_calls w = [])"
proof (intro conjI impI)
  assume "write_next pt tk distance frame = Inr (out, w) \<and> stereo_calls w \<noteq> []"
  then show "is_zero_dimensions distance frame"
    using stereo_only_if_zero_dimensions by blast
next
  assume "\<not> is_zero_dimensions distance frame"
  then show "write_next pt tk distance frame =
          and_then (new_IXAMolWrapper tk) (\<lambda>writer.
          and_then (for_each [0..<frame_size frame] (write_atom pt tk frame) writer) (\<lambda>writer.
          and_then (for_each [0..<length (bonds frame)] (write_bond tk frame) writer) (\<lambda>writer.
            Inr ([fst (get_strings tk writer) @ [CHR 0x0A], snd (get_strings tk writer) @ [CHR 0x0A]],
                 writer))))"
    by (simp add: write_next_def and_then_def Let_def)
next
  show "is_zero_dimensions distance frame \<longleftrightarrow>
        frame_size frame = 0 \<or> frame_size frame = 1
        \<or> (\<forall>i. 1 \<le> i \<and> i < length (positions frame) \<longrightarrow> distance 0 i \<le> eps)"
    by (rule is_zero_dimensions_iff)
next
  assume "frame_size frame \<le> 1 \<and> distinct (bonds frame) \<and> make_adj_list frame = Inr adj_list"
  then show "\<exists>ws. for_each [0..<frame_size frame] (write_stereo tk frame adj_list) w0
                  = Inr (w0\<lparr>warnings := warnings w0 @ ws\<rparr>)"
    using no_stereo_small_frame by blast
next
  assume "frame_size frame \<le> 1 \<and> distinct (bonds frame)
        \<and> write_next pt tk distance frame = Inr (out, w)"
  then show "stereo_calls w = []"
    using small_frame_no_stereo_calls by blast
qed

text \<open>
  The examples: the carbon with three hydrogens, all at one point, is written with a
  stereocentre, and has zero dimensions; the lone carbon is written without; and
  with its atoms at distance 2 from each other the first frame has not zero dimensions.
\<close>

lemmas write_defs = write_next_def new_IXAMolWrapper_def check_for_errors_def and_then_def
  write_atom_def write_bond_def create_atom_def create_bond_def atom_def checked_def call_def
  double_to_int_def atomic_number_def to_int_def example_toolkit_def example_table_def
  new_Atom_def set_property_def frame_size_def is_zero_dimensions_def make_adj_list_def
  add_to_adj_list_def push_neighbour_def write_stereo_def chirality_of_def
  get_string_property_def substr_def create_stereo_tetrahedron_def get_strings_def
  fewer_bonds_warning_def eps_def chiral_carbon_def Let_def upt_rec

lemma example_write_lone:
  "\<exists>out w. write_next example_table example_toolkit (\<lambda>i j. 0) lone_chiral_atom = Inr (out, w)"
  by (simp add: write_defs lone_chiral_atom_def)

lemma example_write_CH2:
  "\<exists>out w. write_next example_table example_toolkit (\<lambda>i j. 0) chiral_CH2 = Inr (out, w)"
  by (simp add: write_defs chiral_CH2_def)

lemma example_write_CH3:
  "\<exists>out w. write_next example_table example_toolkit (\<lambda>i j. 0) chiral_CH3 = Inr (out, w)
     \<and> stereo_calls w \<noteq> []"
  by (simp add: write_defs chiral_CH3_def stereo_calls_def)

theorem stereo_only_when_zero_dimensions_witness:
  "(\<exists>out w. write_next example_table example_toolkit (\<lambda>i j. 0) chiral_CH3 = Inr (out, w)
      \<and> stereo_calls w \<noteq> [] \<and> is_zero_dimensions (\<lambda>i j. 0) chiral_CH3)
   \<and> (\<exists>out w. write_next example_table example_toolkit (\<lambda>i j. 0) lone_chiral_atom = Inr (out, w)
      \<and> stereo_calls w = [])
   \<and> \<not> is_zero_dimensions (\<lambda>i j. 2) chiral_CH3"
proof (intro conjI)
  from example_write_CH3 obtain out w where
    r: "write_next example_table example_toolkit (\<lambda>i j. 0) chiral_CH3 = Inr (out, w)"
    and s: "stereo_calls w \<noteq> []" by blast
  then have "is_zero_dimensions (\<lambda>i j. 0) chiral_CH3"
    using stereo_only_when_zero_dimensions
      [of example_table example_toolkit "\<lambda>i j. 0" chiral_CH3 out w] by blast
  with r s show "\<exists>out w. write_next example_table example_toolkit (\<lambda>i j. 0) chiral_CH3 = Inr (out, w)
      \<and> stereo_calls w \<noteq> [] \<and> is_zero_dimensions (\<lambda>i j. 0) chiral_CH3" by blast
next
  from example_write_lone obtain out w where
    r: "write_next example_table example_toolkit (\<lambda>i j. 0) lone_chiral_atom = Inr (out, w)"
    by blast
  have "frame_size lone_chiral_atom \<le> 1 \<and> distinct (bonds lone_chiral_atom)"
    by (simp add: lone_chiral_atom_def frame_size_def)
  with r have "stereo_calls w = []"
    using stereo_only_when_zero_dimensions
      [of example_table example_toolkit "\<lambda>i j. 0" lone_chiral_atom out w] by blast
  with r show "\<exists>out w. write_next example_table example_toolkit (\<lambda>i j. 0) lone_chiral_atom = Inr (out, w)
      \<and> stereo_calls w = []" by blast
next
  have "\<not> (frame_size chiral_CH3 = 0 \<or> frame_size chiral_CH3 = 1
        \<or> (\<forall>i. 1 \<le> i \<and> i < length (positions chiral_CH3) \<longrightarrow> (2::real) \<le> eps))"
    by (auto simp: chiral_CH3_def frame_size_def eps_def intro: exI [of _ 2])
  then show "\<not> is_zero_dimensions (\<lambda>i j. 2) chiral_CH3"
    using stereo_only_when_zero_dimensions [of _ _ "\<lambda>i j. 2" chiral_CH3] by blast
qed

text \<open>
  The warnings that come from the toolkit's status have another context than the
  warning of \<open>write_next\<close>: writing the atoms and the bonds does not give that one.
\<close>

lemma check_for_errors_other_warnings:
  assumes "check_for_errors tk w = Inr w'"
  shows "fewer_bonds_warning \<in> set (warnings w') \<longleftrightarrow> fewer_bonds_warning \<in> set (warnings w)"
  using assms
  by (auto simp: check_for_errors_def Let_def fewer_bonds_warning_def split: if_splits)

lemma atom_other_warnings:
  assumes "atom tk i w = Inr (a, w')"
  shows "fewer_bonds_warning \<in> set (warnings w') \<longleftrightarrow> fewer_bonds_warning \<in> set (warnings w)"
  using assms check_for_errors_other_warnings [of tk w w']
  by (auto simp: atom_def checked_def and_then_Inr)

lemma create_atom_other_warnings:
  assumes "create_atom pt tk a pos w = Inr w'"
  shows "fewer_bonds_warning \<in> set (warnings w') \<longleftrightarrow> fewer_bonds_warning \<in> set (warnings w)"
proof -
  from assms obtain w8 where c: "check_for_errors tk w8 = Inr w'"
    and p: "warnings w8 = warnings w"
    by (auto simp: create_atom_def and_then_Inr Let_def split: option.splits)
  from check_for_errors_other_warnings [OF c] p show ?thesis by simp
qed

lemma create_bond_other_warnings:
  assumes "create_bond tk bond order w = Inr w'"
  shows "fewer_bonds_warning \<in> set (warnings w') \<longleftrightarrow> fewer_bonds_warning \<in> set (warnings w)"
proof -
  from assms obtain a1 a2 w1 w2 w4 where 1: "atom tk (to_int (fst bond)) w = Inr (a1, w1)"
    and 2: "atom tk (to_int (snd bond)) w1 = Inr (a2, w2)"
    and c: "check_for_errors tk w4 = Inr w'"
    and p: "warnings w4 = warnings w2"
    by (auto simp: create_bond_def and_then_Inr Let_def split: option.splits)
  from atom_other_warnings [OF 1] atom_other_warnings [OF 2] check_for_errors_other_warnings [OF c] p
  show ?thesis by simp
qed

lemma write_atoms_other_warnings:
  "for_each xs (write_atom pt tk frame) w = Inr w'
     \<Longrightarrow> fewer_bonds_warning \<in> set (warnings w') \<longleftrightarrow> fewer_bonds_warning \<in> set (warnings w)"
  by (rule for_each_related
        [where R = "\<lambda>a b. fewer_bonds_warning \<in> set (warnings b) \<longleftrightarrow> fewer_bonds_warning \<in> set (warnings a)"
           and body = "write_atom pt tk frame"])
     (auto simp: write_atom_def split: if_splits dest: create_atom_other_warnings)

lemma write_bonds_other_warnings:
  "for_each xs (write_bond tk frame) w = Inr w'
     \<Longrightarrow> fewer_bonds_warning \<in> set (warnings w') \<longleftrightarrow> fewer_bonds_warning \<in> set (warnings w)"
  by (rule for_each_related
        [where R = "\<lambda>a b. fewer_bonds_warning \<in> set (warnings b) \<longleftrightarrow> fewer_bonds_warning \<in> set (warnings a)"
           and body = "write_bond tk frame"])
     (auto simp: write_bond_def split: if_splits dest: create_bond_other_warnings)

lemma no_warning_without_zero_dimensions:
  assumes "write_next pt tk distance frame = Inr (out, w)"
    and "\<not> is_zero_dimensions distance frame"
  shows "fewer_bonds_warning \<notin> set (warnings w)"
proof -
  from assms(1) obtain w0 w1 w2 where 0: "new_IXAMolWrapper tk = Inr w0"
    and 1: "for_each [0..<frame_size frame] (write_atom pt tk frame) w0 = Inr w1"
    and 2: "for_each [0..<length (bonds frame)] (write_bond tk frame) w1 = Inr w2"
    and 3: "(if is_zero_dimensions distance frame
          then and_then (make_adj_list frame) (\<lambda>adj_list.
                 for_each [0..<frame_size frame] (write_stereo tk frame adj_list) w2)
          else Inr w2) = Inr w"
    by (rule write_next_stages)
  have "fewer_bonds_warning \<notin> set (warnings w0)"
    using check_for_errors_other_warnings [of tk "\<lparr>status_reads = 0, calls = [], warnings = []\<rparr>" w0] 0
    by (simp add: new_IXAMolWrapper_def)
  then have "fewer_bonds_warning \<notin> set (warnings w2)"
    using write_atoms_other_warnings [OF 1] write_bonds_other_warnings [OF 2] by simp
  with 3 assms(2) show ?thesis by simp
qed

text \<open>
  Claim C6. For an atom whose \<open>chirality\<close> property starts with \<open>tetrahedron\<close> and
  which has at most two neighbours, the body of the loop returns the state it was
  given with the warning added: it makes no call to the toolkit and does not raise, so
  that the loop goes on with the other atoms from that state. The loop is run for a
  frame for which \<open>is_zero_dimensions\<close> holds: when the write of such a frame returns,
  the warning is among those given, and the stereocentres created are as many as the
  atoms that are marked and have three neighbours or more, of which this atom is none.
  For any other frame the write gives no such warning, whatever its atoms are marked
  with.
\<close>

theorem under_connected_chiral_atom_warns:
  assumes "prefix ''tetrahedron'' (chirality_of frame i)" and "length (adj_list ! i) \<le> 2"
  shows "write_stereo tk frame adj_list i w
           = Inr (w\<lparr>warnings := warnings w @ [fewer_bonds_warning]\<rparr>)
    \<and> for_each (i # others) (write_stereo tk frame adj_list) w
        = for_each others (write_stereo tk frame adj_list)
            (w\<lparr>warnings := warnings w @ [fewer_bonds_warning]\<rparr>)
    \<and> \<not> reaches_stereo frame adj_list i
    \<and> (is_zero_dimensions distance frame \<and> make_adj_list frame = Inr adj_list
        \<and> i < frame_size frame \<and> write_next pt tk distance frame = Inr (out, w')
       \<longrightarrow> fewer_bonds_warning \<in> set (warnings w')
           \<and> length (stereo_calls w')
               = length (filter (reaches_stereo frame adj_list) [0..<frame_size frame]))
    \<and> (\<not> is_zero_dimensions distance frame \<and> write_next pt tk distance frame = Inr (out, w')
       \<longrightarrow> fewer_bonds_warning \<notin> set (warnings w'))"
proof (intro conjI impI)
  show 1: "write_stereo tk frame adj_list i w
           = Inr (w\<lparr>warnings := warnings w @ [fewer_bonds_warning]\<rparr>)"
    by (rule write_stereo_warns [OF assms])
  then show "for_each (i # others) (write_stereo tk frame adj_list) w
        = for_each others (write_stereo tk frame adj_list)
            (w\<lparr>warnings := warnings w @ [fewer_bonds_warning]\<rparr>)"
    by (simp add: and_then_def)
  show "\<not> reaches_stereo frame adj_list i"
    using assms(2) by (simp add: reaches_stereo_def)
next
  assume a: "is_zero_dimensions distance frame \<and> make_adj_list frame = Inr adj_list
        \<and> i < frame_size frame \<and> write_next pt tk distance frame = Inr (out, w')"
  then obtain w2 where r: "(if is_zero_dimensions distance frame
          then and_then (make_adj_list frame) (\<lambda>adj_list.
                 for_each [0..<frame_size frame] (write_stereo tk frame adj_list) w2)
          else Inr w2) = Inr w'" and s: "stereo_calls w2 = []"
    using write_next_stages [of pt tk distance frame out w'] by blast
  with a have l: "for_each [0..<frame_size frame] (write_stereo tk frame adj_list) w2 = Inr w'"
    by (simp add: and_then_def)
  show "fewer_bonds_warning \<in> set (warnings w')"
    using write_stereos_warning [OF l _ assms] a by simp
  show "length (stereo_calls w')
               = length (filter (reaches_stereo frame adj_list) [0..<frame_size frame])"
    using write_stereos_effect [OF l] s by simp
next
  assume "\<not> is_zero_dimensions distance frame \<and> write_next pt tk distance frame = Inr (out, w')"
  then show "fewer_bonds_warning \<notin> set (warnings w')"
    using no_warning_without_zero_dimensions by blast
qed

text \<open>
  The example: the marked carbon with two hydrogens is written with the warning when
  the three atoms are at one point, and without it when they are at distance 2 from
  each other.
\<close>

lemma example_write_CH2_apart:
  "\<exists>out w. write_next example_table example_toolkit (\<lambda>i j. 2) chiral_CH2 = Inr (out, w)"
  by (simp add: write_defs chiral_CH2_def)

theorem under_connected_chiral_atom_warns_witness:
  "(\<exists>out w. write_next example_table example_toolkit (\<lambda>i j. 0) chiral_CH2 = Inr (out, w)
      \<and> fewer_bonds_warning \<in> set (warnings w) \<and> stereo_calls w = [])
   \<and> (\<exists>out w. write_next example_table example_toolkit (\<lambda>i j. 2) chiral_CH2 = Inr (out, w)
      \<and> fewer_bonds_warning \<notin> set (warnings w))"
proof (intro conjI)
  have c: "prefix ''tetrahedron'' (chirality_of chiral_CH2 0)"
    by (simp add: chirality_of_def chiral_CH2_def chiral_carbon_def set_property_def
        get_string_property_def)
  have a: "make_adj_list chiral_CH2 = Inr [[1, 2], [0], [0]]"
    by (simp add: make_adj_list_def chiral_CH2_def frame_size_def add_to_adj_list_def
        push_neighbour_def and_then_def)
  have d: "length ([[1, 2], [0], [0 :: nat]] ! 0) \<le> 2" by simp
  have z: "is_zero_dimensions (\<lambda>i j. 0) chiral_CH2"
    by (simp add: is_zero_dimensions_def chiral_CH2_def frame_size_def eps_def upt_rec)
  have n: "0 < frame_size chiral_CH2"
    by (simp add: chiral_CH2_def frame_size_def)
  have f: "filter (reaches_stereo chiral_CH2 [[1, 2], [0], [0]]) [0..<frame_size chiral_CH2] = []"
    by (simp add: reaches_stereo_def chiral_CH2_def frame_size_def upt_rec)
  from example_write_CH2 obtain out w where
    r: "write_next example_table example_toolkit (\<lambda>i j. 0) chiral_CH2 = Inr (out, w)" by blast
  from under_connected_chiral_atom_warns [OF c d, of example_toolkit _ _ "\<lambda>i j. 0" example_table out w]
    a z n r f
  have "fewer_bonds_warning \<in> set (warnings w) \<and> stereo_calls w = []" by simp
  with r show "\<exists>out w. write_next example_table example_toolkit (\<lambda>i j. 0) chiral_CH2 = Inr (out, w)
      \<and> fewer_bonds_warning \<in> set (warnings w) \<and> stereo_calls w = []" by blast
  have y: "\<not> is_zero_dimensions (\<lambda>i j. 2) chiral_CH2"
    by (simp add: is_zero_dimensions_def chiral_CH2_def frame_size_def eps_def upt_rec)
  from example_write_CH2_apart obtain out' w' where
    r': "write_next example_table example_toolkit (\<lambda>i j. 2) chiral_CH2 = Inr (out', w')" by blast
  from under_connected_chiral_atom_warns [OF c d, of example_toolkit _ _ "\<lambda>i j. 2" example_table out' w']
    y r'
  have "fewer_bonds_warning \<notin> set (warnings w')" by simp
  with r' show "\<exists>out w. write_next example_table example_toolkit (\<lambda>i j. 2) chiral_CH2 = Inr (out, w)
      \<and> fewer_bonds_warning \<notin> set (warnings w)" by blast
qed

text \<open>
  The claim speaks of every degenerate frame, and the spec calls a frame degenerate
  when its positions are collinear. The marked carbon with two hydrogens, the three
  atoms on a line one unit apart, is such a frame and has not zero dimensions: it is
  written, atoms and bonds, and no warning is given.
\<close>

theorem collinear_frame_gives_no_warning:
  "positions line_CH2 = [(0, 0, 0), (1, 0, 0), (2, 0, 0)]
   \<and> collinear_positions (positions line_CH2)
   \<and> prefix ''tetrahedron'' (chirality_of line_CH2 0)
   \<and> make_adj_list line_CH2 = Inr [[1, 2], [0], [0]]
   \<and> frame_distance line_CH2 0 1 = 1
   \<and> \<not> is_zero_dimensions (frame_distance line_CH2) line_CH2
   \<and> (\<exists>out w. write_next example_table example_toolkit (frame_distance line_CH2) line_CH2
                  = Inr (out, w)
        \<and> warnings w = [] \<and> stereo_calls w = [])"
proof (intro conjI)
  show "positions line_CH2 = [(0, 0, 0), (1, 0, 0), (2, 0, 0)]"
    by (simp add: line_CH2_def)
  show "collinear_positions (positions line_CH2)"
    by (simp add: line_CH2_def collinear_positions_def cross_def difference_def)
  show "prefix ''tetrahedron'' (chirality_of line_CH2 0)"
    by (simp add: chirality_of_def line_CH2_def chiral_carbon_def set_property_def
        get_string_property_def)
  show "make_adj_list line_CH2 = Inr [[1, 2], [0], [0]]"
    by (simp add: make_adj_list_def line_CH2_def frame_size_def add_to_adj_list_def
        push_neighbour_def and_then_def)
  show d: "frame_distance line_CH2 0 1 = 1"
    by (simp add: frame_distance_def line_CH2_def)
  have l: "length (atoms line_CH2) = 3" "length (positions line_CH2) = 3"
    by (simp_all add: line_CH2_def)
  have "frame_distance line_CH2 0 (Suc 0) = 1"
    using d by simp
  then show z: "\<not> is_zero_dimensions (frame_distance line_CH2) line_CH2"
    by (simp add: is_zero_dimensions_def frame_size_def l eps_def upt_rec)
  show "\<exists>out w. write_next example_table example_toolkit (frame_distance line_CH2) line_CH2
                  = Inr (out, w)
        \<and> warnings w = [] \<and> stereo_calls w = []"
    unfolding write_next_def using z
    by (simp add: write_defs line_CH2_def stereo_calls_def)
qed

section \<open>The binary random-access codec\<close>

lemma and_then_Inl:
  "and_then m f = Inl e \<longleftrightarrow> m = Inl e \<or> (\<exists>x. m = Inr x \<and> f x = Inl e)"
  by (cases m) (simp_all add: and_then_def)

lemma offset_of_0 [simp]: "offset_of s 0 = 0"
  by (simp add: offset_of_def)

lemma offset_of_Suc:
  "k < length s \<Longrightarrow> offset_of s (Suc k) = offset_of s k + frame_bytes (s ! k)"
  by (simp add: offset_of_def take_Suc_conv_app_nth)

lemma offset_of_Cons_Suc: "offset_of (f # fs) (Suc k) = frame_bytes f + offset_of fs k"
  by (simp add: offset_of_def)

lemma offset_of_length: "offset_of s (length s) = stream_length s"
  by (simp add: offset_of_def stream_length_def)

lemma offset_of_mono: "j \<le> k \<Longrightarrow> offset_of s j \<le> offset_of s k"
proof -
  assume "j \<le> k"
  then have "take k s = take j s @ take (k - j) (drop j s)"
    by (metis le_add_diff_inverse take_add)
  then show ?thesis by (simp add: offset_of_def)
qed

lemma offset_of_le_length: "offset_of s k \<le> stream_length s"
proof (cases "k \<le> length s")
  case True
  from offset_of_mono [OF this, of s] show ?thesis by (simp add: offset_of_length)
next
  case False
  then show ?thesis by (simp add: offset_of_def stream_length_def)
qed

lemma frame_at_offset:
  "k < length s \<Longrightarrow> (\<forall>j < k. 0 < frame_bytes (s ! j)) \<Longrightarrow> frame_at s (offset_of s k) = Some (s ! k)"
proof (induction s arbitrary: k)
  case Nil
  then show ?case by simp
next
  case (Cons f fs)
  show ?case
  proof (cases k)
    case 0
    then show ?thesis by simp
  next
    case (Suc k')
    have pos: "0 < frame_bytes f" using Cons.prems(2) Suc by auto
    have "\<forall>j < k'. 0 < frame_bytes (fs ! j)" using Cons.prems(2) Suc by auto
    with Cons.IH [of k'] Cons.prems(1) Suc
    have "frame_at fs (offset_of fs k') = Some (fs ! k')" by simp
    with pos Suc show ?thesis by (simp add: offset_of_Cons_Suc)
  qed
qed

lemma indexed_open: "indexed (open_trr s)"
  by (simp add: indexed_def open_trr_def)

lemma indexed_frame_at:
  assumes "indexed c" and "k \<le> length (frame_offsets c)" and "k < length (stream c)"
  shows "frame_at (stream c) (offset_of (stream c) k) = Some (stream c ! k)"
proof (rule frame_at_offset [OF assms(3)])
  show "\<forall>j < k. 0 < frame_bytes (stream c ! j)"
    using assms(1,2) by (auto simp: indexed_def frame_bytes_def)
qed

text \<open>One step of the indexing on an indexed state.\<close>

lemma index_next_cases:
  assumes i: "indexed c" and n: "index_next c = Inr c'"
  shows "c' = c \<and> last_known_offset c = stream_length (stream c)
         \<or> (length (frame_offsets c) < length (stream c)
            \<and> check_frame c (stream c ! length (frame_offsets c)) = Inr ()
            \<and> c' = c\<lparr>frame_offsets := frame_offsets c @ [last_known_offset c],
                      trajectory_natoms :=
                        (if frame_offsets c = []
                         then to_size_t (natoms (header (stream c ! length (frame_offsets c))))
                         else trajectory_natoms c),
                      last_known_offset :=
                        last_known_offset c + frame_bytes (stream c ! length (frame_offsets c)),
                      scanned := scanned c @
                        [(last_known_offset c,
                          last_known_offset c + header_bytes (stream c ! length (frame_offsets c)))]\<rparr>)"
proof (cases "last_known_offset c = stream_length (stream c)")
  case True
  with n show ?thesis by (simp add: index_next_def)
next
  case False
  let ?k = "length (frame_offsets c)"
  have p: "last_known_offset c = offset_of (stream c) ?k" and le: "?k \<le> length (stream c)"
    using i by (simp_all add: indexed_def)
  have lt: "?k < length (stream c)"
    using False p le offset_of_length [of "stream c"] by (cases "?k = length (stream c)") auto
  have fa: "frame_at (stream c) (last_known_offset c) = Some (stream c ! ?k)"
    using indexed_frame_at [OF i _ lt] p by simp
  from n False fa lt show ?thesis
    by (auto simp: index_next_def Let_def and_then_Inr)
qed

lemma index_next_indexed:
  assumes i: "indexed c" and n: "index_next c = Inr c'"
  shows "indexed c'"
proof -
  let ?k = "length (frame_offsets c)"
  let ?f = "stream c ! ?k"
  from index_next_cases [OF i n] show ?thesis
  proof
    assume "c' = c \<and> last_known_offset c = stream_length (stream c)"
    with i show ?thesis by simp
  next
    assume a: "?k < length (stream c) \<and> check_frame c ?f = Inr ()
            \<and> c' = c\<lparr>frame_offsets := frame_offsets c @ [last_known_offset c],
                      trajectory_natoms :=
                        (if frame_offsets c = [] then to_size_t (natoms (header ?f))
                         else trajectory_natoms c),
                      last_known_offset := last_known_offset c + frame_bytes ?f,
                      scanned := scanned c @
                        [(last_known_offset c, last_known_offset c + header_bytes ?f)]\<rparr>"
    then have lt: "?k < length (stream c)" and ck: "check_frame c ?f = Inr ()" by simp_all
    from ck have hb: "0 < header_bytes ?f"
      and na: "frame_offsets c \<noteq> [] \<longrightarrow> to_size_t (natoms (header ?f)) = trajectory_natoms c"
      by (auto simp: check_frame_def split: if_splits)
    have old: "\<forall>j < ?k. 0 < header_bytes (stream c ! j)
            \<and> to_size_t (natoms (header (stream c ! j))) = trajectory_natoms c"
      using i by (simp add: indexed_def)
    have new: "\<forall>j < Suc ?k. 0 < header_bytes (stream c ! j)
            \<and> to_size_t (natoms (header (stream c ! j))) =
                (if frame_offsets c = [] then to_size_t (natoms (header ?f)) else trajectory_natoms c)"
    proof (intro allI impI)
      fix j assume "j < Suc ?k"
      then consider "j < ?k" | "j = ?k" by linarith
      then show "0 < header_bytes (stream c ! j)
            \<and> to_size_t (natoms (header (stream c ! j))) =
                (if frame_offsets c = [] then to_size_t (natoms (header ?f)) else trajectory_natoms c)"
      proof cases
        case 1
        then have "frame_offsets c \<noteq> []" by auto
        with 1 old show ?thesis by simp
      next
        case 2
        with hb na show ?thesis by simp
      qed
    qed
    from i a new show ?thesis
      by (simp add: indexed_def offset_of_Suc [OF lt])
  qed
qed

lemma index_next_error:
  "index_next c = Inl e \<Longrightarrow> \<exists>msg. e = FormatError msg"
  by (auto simp: index_next_def Let_def and_then_Inl check_frame_def
      split: option.splits if_splits)

lemma index_next_stream:
  "index_next c = Inr c' \<Longrightarrow> stream c' = stream c"
  by (auto simp: index_next_def Let_def and_then_Inr split: option.splits if_splits)

lemma index_until_indexed:
  "indexed c \<Longrightarrow> index_until target c = Inr c' \<Longrightarrow>
   indexed c' \<and> stream c' = stream c
   \<and> (covers target c' \<or> stream_length (stream c') \<le> last_known_offset c')"
proof (induction target c rule: index_until.induct)
  case (1 target c)
  show ?case
  proof (cases "covers target c \<or> stream_length (stream c) \<le> last_known_offset c")
    case True
    with "1.prems" show ?thesis by (subst (asm) index_until.simps) auto
  next
    case False
    with "1.prems"(2) obtain c1 where n: "index_next c = Inr c1"
      and r: "index_until target c1 = Inr c'"
      by (subst (asm) index_until.simps) (auto simp: and_then_Inr)
    from "1.IH" [OF False n index_next_indexed [OF "1.prems"(1) n] r] index_next_stream [OF n]
    show ?thesis by auto
  qed
qed

lemma index_until_error:
  "index_until target c = Inl e \<Longrightarrow> \<exists>msg. e = FormatError msg"
proof (induction target c rule: index_until.induct)
  case (1 target c)
  show ?case
  proof (cases "covers target c \<or> stream_length (stream c) \<le> last_known_offset c")
    case True
    with "1.prems" show ?thesis by (subst (asm) index_until.simps) auto
  next
    case False
    with "1.prems" have "index_next c = Inl e \<or> (\<exists>c1. index_next c = Inr c1 \<and> index_until target c1 = Inl e)"
      by (subst (asm) index_until.simps) (auto simp: and_then_Inl)
    then show ?thesis
    proof
      assume "index_next c = Inl e"
      then show ?thesis by (rule index_next_error)
    next
      assume "\<exists>c1. index_next c = Inr c1 \<and> index_until target c1 = Inl e"
      then obtain c1 where "index_next c = Inr c1" "index_until target c1 = Inl e" by blast
      with "1.IH" [OF False] show ?thesis by blast
    qed
  qed
qed


lemma index_grows_refl: "index_grows c c"
  by (simp add: index_grows_def)

lemma index_grows_trans:
  assumes "index_grows a b" and "index_grows b c"
  shows "index_grows a c"
proof -
  from assms(1) obtain o1 r1 where 1: "stream b = stream a" "last_known_offset a \<le> last_known_offset b"
    "frame_offsets b = frame_offsets a @ o1" "scanned b = scanned a @ r1"
    "\<forall>r \<in> set r1. last_known_offset a \<le> fst r"
    by (auto simp: index_grows_def)
  from assms(2) obtain o2 r2 where 2: "stream c = stream b" "last_known_offset b \<le> last_known_offset c"
    "frame_offsets c = frame_offsets b @ o2" "scanned c = scanned b @ r2"
    "\<forall>r \<in> set r2. last_known_offset b \<le> fst r"
    by (auto simp: index_grows_def)
  have "frame_offsets c = frame_offsets a @ (o1 @ o2)" using 1 2 by simp
  moreover have "scanned c = scanned a @ (r1 @ r2)" using 1 2 by simp
  moreover have "\<forall>r \<in> set (r1 @ r2). last_known_offset a \<le> fst r"
    using 1 2 by (auto intro: order_trans)
  ultimately show ?thesis
    unfolding index_grows_def using 1(1,2) 2(1,2) by (metis order_trans)
qed

lemma index_next_grows:
  assumes "indexed c" and "index_next c = Inr c'"
  shows "index_grows c c'"
  using index_next_cases [OF assms]
  by (auto simp: index_grows_def)

lemma index_until_grows:
  "indexed c \<Longrightarrow> index_until target c = Inr c' \<Longrightarrow> index_grows c c'"
proof (induction target c rule: index_until.induct)
  case (1 target c)
  show ?case
  proof (cases "covers target c \<or> stream_length (stream c) \<le> last_known_offset c")
    case True
    with "1.prems" show ?thesis
      by (subst (asm) index_until.simps) (auto simp: index_grows_refl)
  next
    case False
    with "1.prems"(2) obtain c1 where n: "index_next c = Inr c1"
      and r: "index_until target c1 = Inr c'"
      by (subst (asm) index_until.simps) (auto simp: and_then_Inr)
    from "1.IH" [OF False n index_next_indexed [OF "1.prems"(1) n] r]
      index_next_grows [OF "1.prems"(1) n]
    show ?thesis by (blast intro: index_grows_trans)
  qed
qed

lemma index_until_done:
  "covers target c \<or> stream_length (stream c) \<le> last_known_offset c \<Longrightarrow> index_until target c = Inr c"
  by (subst index_until.simps) simp

lemma indexed_next_step [simp]: "indexed (c\<lparr>next_step := n\<rparr>) = indexed c"
  by (simp add: indexed_def)

lemma index_grows_next_step [simp]: "index_grows c (c'\<lparr>next_step := n\<rparr>) = index_grows c c'"
  by (simp add: index_grows_def)

lemma read_step_result:
  assumes i: "indexed c" and r: "read_step k c = Inr (f, c')"
  obtains c1 where "index_until (Some k) c = Inr c1" and "k < length (frame_offsets c1)"
    and "f = stream c ! k" and "check_frame c1 f = Inr ()" and "c' = c1\<lparr>next_step := k + 1\<rparr>"
proof -
  from r obtain c1 where u: "index_until (Some k) c = Inr c1"
    and k: "k < length (frame_offsets c1)"
    and rest: "(case frame_at (stream c1) (frame_offsets c1 ! k) of
              None \<Rightarrow> Inl (FormatError ''bad frame header'')
            | Some f \<Rightarrow> and_then (check_frame c1 f) (\<lambda>u. Inr (f, c1\<lparr>next_step := k + 1\<rparr>)))
          = Inr (f, c')"
    by (auto simp: read_step_def and_then_Inr split: if_splits)
  from index_until_indexed [OF i u] have i1: "indexed c1" and s: "stream c1 = stream c" by simp_all
  have o: "frame_offsets c1 ! k = offset_of (stream c1) k"
  proof -
    have "frame_offsets c1 ! k = map (offset_of (stream c1)) [0..<length (frame_offsets c1)] ! k"
      using i1 by (simp add: indexed_def)
    then show ?thesis using k by simp
  qed
  have "k < length (stream c1)" using i1 k by (simp add: indexed_def)
  from indexed_frame_at [OF i1 _ this] k o
  have "frame_at (stream c1) (frame_offsets c1 ! k) = Some (stream c1 ! k)" by simp
  with rest have "f = stream c1 ! k" "check_frame c1 f = Inr ()" "c' = c1\<lparr>next_step := k + 1\<rparr>"
    by (auto simp: and_then_Inr)
  with u k s show ?thesis using that by simp
qed

lemma apply_call_indexed:
  assumes i: "indexed c" and a: "apply_call req c = Inr c'"
  shows "indexed c'" and "index_grows c c'"
proof -
  have "indexed c' \<and> index_grows c c'"
  proof (cases req)
    case (ReadStep k)
    with a obtain f where r: "read_step k c = Inr (f, c')"
      by (auto simp: and_then_Inr)
    from read_step_result [OF i r] obtain c1 where u: "index_until (Some k) c = Inr c1"
      and c': "c' = c1\<lparr>next_step := k + 1\<rparr>" by blast
    from index_until_indexed [OF i u] index_until_grows [OF i u] c' show ?thesis by simp
  next
    case NSteps
    with a have u: "index_until None c = Inr c'"
      by (auto simp: nsteps_def and_then_Inr)
    from index_until_indexed [OF i u] index_until_grows [OF i u] show ?thesis by simp
  qed
  then show "indexed c'" and "index_grows c c'" by simp_all
qed

lemma trr_calls_indexed:
  assumes "trr_calls cs s = Inr c"
  shows "indexed c" and "stream c = s"
proof -
  have "indexed (open_trr s) \<longrightarrow> indexed c \<and> stream c = stream (open_trr s)"
  proof (rule for_each_related
      [where R = "\<lambda>a b. indexed a \<longrightarrow> indexed b \<and> stream b = stream a" and body = apply_call
         and xs = cs])
    show "for_each cs apply_call (open_trr s) = Inr c"
      using assms by (simp add: trr_calls_def)
  next
    fix i a b assume "apply_call i a = Inr b"
    then show "indexed a \<longrightarrow> indexed b \<and> stream b = stream a"
      using apply_call_indexed [of a i b] by (auto simp: index_grows_def)
  qed auto
  with indexed_open [of s] show "indexed c" and "stream c = s"
    by (simp_all add: open_trr_def)
qed

lemma indexed_scanned_sorted:
  assumes "indexed c"
  shows "sorted_wrt (\<lambda>r r'. snd r \<le> fst r') (scanned c)"
proof -
  let ?s = "stream c" and ?k = "length (frame_offsets c)"
  have le: "?k \<le> length ?s" using assms by (simp add: indexed_def)
  have "sorted_wrt (\<lambda>r r'. snd r \<le> fst r')
          (map (\<lambda>j. (offset_of ?s j, offset_of ?s j + header_bytes (?s ! j))) [0..<?k])"
  proof (simp add: sorted_wrt_map sorted_wrt_iff_nth_less, intro allI impI)
    fix i j assume "i < j" and "j < ?k"
    then have "i < length ?s" using le by simp
    have "offset_of ?s i + header_bytes (?s ! i) \<le> offset_of ?s (Suc i)"
      by (simp add: offset_of_Suc [OF \<open>i < length ?s\<close>] frame_bytes_def)
    also have "\<dots> \<le> offset_of ?s j"
      using \<open>i < j\<close> by (simp add: offset_of_mono)
    finally show "offset_of ?s i + header_bytes (?s ! i) \<le> offset_of ?s j" .
  qed
  then show ?thesis using assms by (simp add: indexed_def)
qed


text \<open>
  Claim C3. After any calls on a codec, the atom count it holds, once a frame is
  indexed, is the one that the header of the first frame declares. Reading a later step
  whose frame is in the stream and declares another atom count fails with a format
  error, whatever has been read before; and a step that is read is the frame stored at
  that place, with the atom count of the trajectory, so that no frame of another size
  is handed out.
\<close>

theorem atom_count_fixed_by_first_frame:
  assumes "trr_calls cs s = Inr c"
  shows "(frame_offsets c \<noteq> [] \<longrightarrow> trajectory_natoms c = to_size_t (natoms (header (s ! 0))))
    \<and> (1 \<le> k \<and> k < length s \<and> 0 < header_bytes (s ! k)
        \<and> to_size_t (natoms (header (s ! k))) \<noteq> to_size_t (natoms (header (s ! 0)))
       \<longrightarrow> (\<exists>msg. read_step k c = Inl (FormatError msg)))
    \<and> (read_step k c = Inr (f, c')
       \<longrightarrow> f = s ! k \<and> to_size_t (natoms (header f)) = trajectory_natoms c'
           \<and> trajectory_natoms c' = to_size_t (natoms (header (s ! 0))))"
proof (intro conjI impI)
  note i = trr_calls_indexed [OF assms]
  have first: "trajectory_natoms d = to_size_t (natoms (header (stream d ! 0)))"
    if "indexed d" and "frame_offsets d \<noteq> []" for d
    using that by (auto simp: indexed_def)
  show "trajectory_natoms c = to_size_t (natoms (header (s ! 0)))" if "frame_offsets c \<noteq> []"
    using first [OF i(1) that] i(2) by simp
  show "\<exists>msg. read_step k c = Inl (FormatError msg)"
    if a: "1 \<le> k \<and> k < length s \<and> 0 < header_bytes (s ! k)
        \<and> to_size_t (natoms (header (s ! k))) \<noteq> to_size_t (natoms (header (s ! 0)))"
  proof (cases "index_until (Some k) c")
    case (Inl e)
    from index_until_error [OF Inl] obtain msg where "e = FormatError msg" by blast
    with Inl show ?thesis by (simp add: read_step_def and_then_def)
  next
    case (Inr c1)
    from index_until_indexed [OF i(1) Inr] i(2)
    have i1: "indexed c1" and s1: "stream c1 = s"
      and stop: "covers (Some k) c1 \<or> stream_length s \<le> last_known_offset c1" by auto
    have False
    proof (cases "k < length (frame_offsets c1)")
      case True
      then have ne: "frame_offsets c1 \<noteq> []" by auto
      have "to_size_t (natoms (header (s ! k))) = trajectory_natoms c1"
        using i1 True s1 by (auto simp: indexed_def)
      with first [OF i1 ne] s1 a show False by simp
    next
      case False
      with stop have "stream_length s \<le> last_known_offset c1" by (simp add: covers_def)
      also have "last_known_offset c1 = offset_of s (length (frame_offsets c1))"
        using i1 s1 by (simp add: indexed_def)
      also have "\<dots> \<le> offset_of s k"
        using False by (simp add: offset_of_mono)
      also have "\<dots> < offset_of s (Suc k)"
        using a by (simp add: offset_of_Suc frame_bytes_def)
      also have "\<dots> \<le> stream_length s"
        by (rule offset_of_le_length)
      finally show False by simp
    qed
    then show ?thesis ..
  qed
  assume r: "read_step k c = Inr (f, c')"
  from read_step_result [OF i(1) r] obtain c1 where u: "index_until (Some k) c = Inr c1"
    and k: "k < length (frame_offsets c1)" and f: "f = stream c ! k"
    and c': "c' = c1\<lparr>next_step := k + 1\<rparr>" by blast
  from index_until_indexed [OF i(1) u] i(2) have i1: "indexed c1" and s1: "stream c1 = s"
    by simp_all
  from k have ne: "frame_offsets c1 \<noteq> []" by auto
  show "f = s ! k" using f i(2) by simp
  show "to_size_t (natoms (header f)) = trajectory_natoms c'"
    using i1 k s1 f i(2) c' by (auto simp: indexed_def)
  show "trajectory_natoms c' = to_size_t (natoms (header (s ! 0)))"
    using first [OF i1 ne] s1 c' by simp
qed

text \<open>
  The example of the spec: a trajectory whose first frame declares 3 atoms and whose
  second declares 4. The first step is read; \<open>read_step(1)\<close> then fails.
\<close>

lemmas trr_defs = trr_calls_def read_step_def nsteps_def index_until.simps index_next_def
  check_frame_def covers_def and_then_def stream_length_def frame_bytes_def declared_payload_def
  example_stored_frame_def open_trr_def to_size_t_def Let_def

lemma example_inconsistent:
  "trr_calls [ReadStep 0] [example_stored_frame 3, example_stored_frame 4]
   = Inr \<lparr>stream = [example_stored_frame 3, example_stored_frame 4], frame_offsets = [0],
          next_step = 1, trajectory_natoms = 3, last_known_offset = 120, scanned = [(0, 84)]\<rparr>"
  by (simp add: trr_defs)

theorem atom_count_fixed_by_first_frame_witness:
  "\<exists>c. trr_calls [ReadStep 0] [example_stored_frame 3, example_stored_frame 4] = Inr c
     \<and> trajectory_natoms c = 3
     \<and> (\<exists>msg. read_step 1 c = Inl (FormatError msg))
     \<and> read_step 1 c =
         Inl (FormatError ''inconsistent trajectory: expected 3 atoms, but the frame declares 4'')
     \<and> (\<exists>c'. read_step 0 c = Inr (example_stored_frame 3, c') \<and> trajectory_natoms c' = 3)"
proof -
  let ?s = "[example_stored_frame 3, example_stored_frame 4]"
  let ?c = "\<lparr>stream = ?s, frame_offsets = [0], next_step = 1, trajectory_natoms = 3,
             last_known_offset = 120, scanned = [(0, 84)]\<rparr>"
  note t = atom_count_fixed_by_first_frame [OF example_inconsistent]
  have n: "to_size_t (natoms (header (?s ! 0))) = 3" "to_size_t (natoms (header (?s ! 1))) = 4"
    "0 < header_bytes (?s ! 1)"
    by (simp_all add: example_stored_frame_def to_size_t_def)
  have 1: "trajectory_natoms ?c = 3"
    using t [THEN conjunct1] n by simp
  have 2: "\<exists>msg. read_step 1 ?c = Inl (FormatError msg)"
    using t [of 1, THEN conjunct2, THEN conjunct1] n by simp
  have 3: "read_step 1 ?c =
         Inl (FormatError ''inconsistent trajectory: expected 3 atoms, but the frame declares 4'')"
    by (simp add: trr_defs fmt_nat.simps digit_char_def)
  have r0: "read_step 0 ?c = Inr (example_stored_frame 3, ?c\<lparr>next_step := 1\<rparr>)"
    by (simp add: trr_defs)
  have 4: "\<exists>c'. read_step 0 ?c = Inr (example_stored_frame 3, c') \<and> trajectory_natoms c' = 3"
    using t [of 0 "example_stored_frame 3" "?c\<lparr>next_step := 1\<rparr>", THEN conjunct2, THEN conjunct2] r0 n
    by simp
  from example_inconsistent 1 2 3 4 show ?thesis by blast
qed

text \<open>
  Claim C4. After any calls on a codec, the byte ranges that the index pass has scanned
  lie one behind the other, none reaching into the next, so that no byte has been
  scanned twice, and the table holds the offsets of the first frames of the stream. A
  further call extends the table and the list of scanned ranges at their ends, and
  scans only from the last known offset on. Once the whole stream is indexed,
  \<open>nsteps()\<close> returns the number of frames and leaves the codec as it is; this is the
  case after every \<open>nsteps()\<close> that returns, so that a second call scans nothing and
  finds the same table.
\<close>

theorem index_scans_each_range_once:
  assumes "trr_calls cs s = Inr c"
  shows "sorted_wrt (\<lambda>r r'. snd r \<le> fst r') (scanned c)
    \<and> frame_offsets c = map (offset_of s) [0..<length (frame_offsets c)]
    \<and> (apply_call req c = Inr c' \<longrightarrow> index_grows c c')
    \<and> (last_known_offset c = stream_length s
       \<longrightarrow> nsteps c = Inr (length (frame_offsets c), c))
    \<and> (nsteps c = Inr (n, c')
       \<longrightarrow> nsteps c' = Inr (n, c') \<and> last_known_offset c' = stream_length s)"
proof (intro conjI impI)
  note i = trr_calls_indexed [OF assms]
  show "sorted_wrt (\<lambda>r r'. snd r \<le> fst r') (scanned c)"
    by (rule indexed_scanned_sorted [OF i(1)])
  show "frame_offsets c = map (offset_of s) [0..<length (frame_offsets c)]"
    using i by (simp add: indexed_def)
  show "index_grows c c'" if "apply_call req c = Inr c'"
    by (rule apply_call_indexed(2) [OF i(1) that])
  show "nsteps c = Inr (length (frame_offsets c), c)" if "last_known_offset c = stream_length s"
    using that i(2) by (simp add: nsteps_def index_until_done and_then_def)
  assume r: "nsteps c = Inr (n, c')"
  then have u: "index_until None c = Inr c'" and n: "n = length (frame_offsets c')"
    by (auto simp: nsteps_def and_then_Inr)
  from index_until_indexed [OF i(1) u] i(2)
  have i1: "indexed c'" and s1: "stream c' = s" and stop: "stream_length s \<le> last_known_offset c'"
    by (auto simp: covers_def)
  show "nsteps c' = Inr (n, c')"
    using stop s1 n by (simp add: nsteps_def index_until_done and_then_def)
  have "last_known_offset c' \<le> stream_length s"
    using i1 s1 offset_of_le_length [of s] by (simp add: indexed_def)
  with stop show "last_known_offset c' = stream_length s" by simp
qed

text \<open>
  Three frames: step 0 is read, the steps are counted, step 2 is read. Each header has
  been scanned once; counting again, or reading step 0 again, scans nothing.
\<close>

lemma example_indexing:
  "trr_calls [ReadStep 0, NSteps, ReadStep 2]
     [example_stored_frame 3, example_stored_frame 3, example_stored_frame 3]
   = Inr \<lparr>stream = [example_stored_frame 3, example_stored_frame 3, example_stored_frame 3],
          frame_offsets = [0, 120, 240], next_step = 3, trajectory_natoms = 3,
          last_known_offset = 360, scanned = [(0, 84), (120, 204), (240, 324)]\<rparr>"
  by (simp add: trr_defs)

theorem index_scans_each_range_once_witness:
  "\<exists>c. trr_calls [ReadStep 0, NSteps, ReadStep 2]
         [example_stored_frame 3, example_stored_frame 3, example_stored_frame 3] = Inr c
     \<and> scanned c = [(0, 84), (120, 204), (240, 324)]
     \<and> sorted_wrt (\<lambda>r r'. snd r \<le> fst r') (scanned c)
     \<and> frame_offsets c = [0, 120, 240]
     \<and> nsteps c = Inr (3, c)
     \<and> (\<exists>c'. apply_call (ReadStep 0) c = Inr c' \<and> index_grows c c' \<and> scanned c' = scanned c)"
proof -
  let ?s = "[example_stored_frame 3, example_stored_frame 3, example_stored_frame 3]"
  let ?c = "\<lparr>stream = ?s, frame_offsets = [0, 120, 240], next_step = 3, trajectory_natoms = 3,
             last_known_offset = 360, scanned = [(0, 84), (120, 204), (240, 324)]\<rparr>"
  note t = index_scans_each_range_once [OF example_indexing]
  have l: "last_known_offset ?c = stream_length ?s"
    by (simp add: stream_length_def frame_bytes_def example_stored_frame_def)
  have 1: "sorted_wrt (\<lambda>r r'. snd r \<le> fst r') (scanned ?c)"
    using t [THEN conjunct1] .
  have 2: "nsteps ?c = Inr (3, ?c)"
    using t [THEN conjunct2, THEN conjunct2, THEN conjunct2, THEN conjunct1] l by simp
  have a: "apply_call (ReadStep 0) ?c = Inr (?c\<lparr>next_step := 1\<rparr>)"
    by (simp add: trr_defs)
  have 3: "index_grows ?c (?c\<lparr>next_step := 1\<rparr>)"
    using t [of "ReadStep 0" "?c\<lparr>next_step := 1\<rparr>", THEN conjunct2, THEN conjunct2, THEN conjunct1] a
    by simp
  from example_indexing 1 2 a 3 show ?thesis by simp
qed

end
